theory Spec2Isabelle
  imports Complex_Main "HOL-Library.Word" "HOL-Library.Sublist"
begin

section \<open>Motion poster generator: data model\<close>

text \<open>
  The development embeds the class \<open>MotionPosterGenerator\<close> of
  \<open>scripts/motion-demo.py\<close> (the copy under \<open>docs/POC/motion-posters\<close> has the same
  \<open>estimate_depth\<close>, \<open>generate_parallax_frames\<close>, \<open>_apply_parallax\<close>, \<open>_apply_zoom\<close>
  and \<open>generate\<close>).

  A numpy array of two dimensions is a list of rows. Floating-point numbers are
  modelled by the real numbers they denote, and the arithmetic of the warps and of the
  depth normalisation is exact; the special values of IEEE 754 are kept, because the
  division of the depth normalisation can produce them. The product
  \<open>duration * fps\<close>, whose truncation is the number of frames, is rounded to a
  double as the code rounds it (section on the pipeline). Exceptions are values of the
  type \<open>error\<close>.
\<close>

datatype error = ValueError | IndexError | CvError | SystemExit | OverflowError

datatype fval = Fin real | PInf | NInf | NaN

type_synonym pixel = "8 word \<times> 8 word \<times> 8 word"

type_synonym image = "pixel list list"

definition height :: "'a list list \<Rightarrow> nat" where
  "height a = length a"

definition width :: "'a list list \<Rightarrow> nat" where
  "width a = (case a of [] \<Rightarrow> 0 | r # _ \<Rightarrow> length r)"

definition rect :: "'a list list \<Rightarrow> nat \<Rightarrow> nat \<Rightarrow> bool" where
  \<comment> \<open>the array has shape \<open>(h, w)\<close>\<close>
  "rect a h w = (length a = h \<and> list_all (\<lambda>r. length r = w) a)"

section \<open>Depth normalisation (\<open>estimate_depth\<close>)\<close>

text \<open>
  numpy's division of floats raises nothing: a zero divisor gives \<open>nan\<close> for \<open>0 / 0\<close>
  and an infinity otherwise. The divisor of the normalisation is a difference
  \<open>max - min\<close>, so a zero divisor is \<open>+0\<close>.
\<close>

definition np_div :: "real \<Rightarrow> real \<Rightarrow> fval" where
  "np_div a b =
     (if b \<noteq> 0 then Fin (a / b)
      else if a = 0 then NaN
      else if 0 < a then PInf else NInf)"

definition arr_min :: "real list list \<Rightarrow> real" where
  \<comment> \<open>\<open>a.min()\<close> of an array with at least one element\<close>
  "arr_min a = (let flat = concat a in fold min (tl flat) (hd flat))"

definition arr_max :: "real list list \<Rightarrow> real" where
  \<comment> \<open>\<open>a.max()\<close> of an array with at least one element\<close>
  "arr_max a = (let flat = concat a in fold max (tl flat) (hd flat))"

definition normalize :: "real list list \<Rightarrow> error + fval list list" where
  \<comment> \<open>\<open>(depth_map - depth_map.min()) / (depth_map.max() - depth_map.min())\<close>;
      \<open>min\<close> and \<open>max\<close> of an array without elements raise ValueError\<close>
  "normalize depth_map =
     (if concat depth_map = [] then Inl ValueError
      else Inr (map (map (\<lambda>v. np_div (v - arr_min depth_map)
                                      (arr_max depth_map - arr_min depth_map)))
                    depth_map))"

definition estimate_depth :: "(image \<Rightarrow> real list list) \<Rightarrow> image \<Rightarrow> error + fval list list" where
  \<comment> \<open>\<open>predict\<close> is the depth model followed by the bicubic interpolation to the
      size of the image: the raw prediction, of finite values\<close>
  "estimate_depth predict image_pil = normalize (predict image_pil)"

section \<open>Python and numpy arithmetic\<close>

definition py_int :: "real \<Rightarrow> int" where
  \<comment> \<open>\<open>int(x)\<close> of a float: truncation toward zero\<close>
  "py_int x = (if 0 \<le> x then \<lfloor>x\<rfloor> else \<lceil>x\<rceil>)"

definition py_slice :: "'a list \<Rightarrow> int \<Rightarrow> int \<Rightarrow> 'a list" where
  \<comment> \<open>\<open>xs[lo:hi]\<close>: a negative bound counts from the end, both are cut to the length\<close>
  "py_slice xs lo hi =
     (let n = int (length xs);
          l = (if lo < 0 then max (lo + n) 0 else min lo n);
          u = (if hi < 0 then max (hi + n) 0 else min hi n)
      in take (nat (u - l)) (drop (nat l) xs))"

fun np_mul :: "fval \<Rightarrow> real \<Rightarrow> fval" where
  "np_mul (Fin a) c = Fin (a * c)"
| "np_mul PInf c = (if c = 0 then NaN else if 0 < c then PInf else NInf)"
| "np_mul NInf c = (if c = 0 then NaN else if 0 < c then NInf else PInf)"
| "np_mul NaN c = NaN"

fun np_add :: "real \<Rightarrow> fval \<Rightarrow> fval" where
  "np_add c (Fin a) = Fin (c + a)"
| "np_add c PInf = PInf"
| "np_add c NInf = NInf"
| "np_add c NaN = NaN"

fun np_clip :: "fval \<Rightarrow> real \<Rightarrow> real \<Rightarrow> fval" where
  \<comment> \<open>\<open>np.clip(a, lo, hi)\<close> is \<open>minimum(maximum(a, lo), hi)\<close>, and \<open>nan\<close> stays \<open>nan\<close>\<close>
  "np_clip (Fin a) lo hi = Fin (min (max a lo) hi)"
| "np_clip PInf lo hi = Fin hi"
| "np_clip NInf lo hi = Fin (min lo hi)"
| "np_clip NaN lo hi = NaN"

definition astype_float32 :: "fval list list \<Rightarrow> fval list list" where
  \<comment> \<open>the cast keeps the shape; the rounding to single precision is not modelled\<close>
  "astype_float32 a = a"

definition np_binop :: "('a \<Rightarrow> 'b \<Rightarrow> 'c) \<Rightarrow> 'a list list \<Rightarrow> 'b list list \<Rightarrow> error + 'c list list" where
  \<comment> \<open>an operation on two arrays, element by element. Arrays of different shapes raise
      ValueError (numpy's broadcasting of an axis of length one is not modelled: the depth
      map of \<open>generate\<close> has the shape of the image)\<close>
  "np_binop f a b =
     (if map length a = map length b then Inr (map2 (map2 f) a b) else Inl ValueError)"

definition meshgrid_y :: "nat \<Rightarrow> nat \<Rightarrow> real list list" where
  \<comment> \<open>\<open>y_coords\<close> of \<open>np.meshgrid(np.arange(h), np.arange(w), indexing='ij')\<close>\<close>
  "meshgrid_y h w = map (\<lambda>y. replicate w (real y)) [0..<h]"

definition meshgrid_x :: "nat \<Rightarrow> nat \<Rightarrow> real list list" where
  \<comment> \<open>\<open>x_coords\<close> of the same call\<close>
  "meshgrid_x h w = replicate h (map real [0..<w])"

section \<open>The OpenCV functions the generator calls\<close>

text \<open>
  OpenCV is a library outside the repository. Its functions are modelled in what the
  generator relies on: the size of the result, the parameters they reject, and which
  source sample each pixel of the result is. The arithmetic of the interpolation is a
  parameter: \<open>remap_px cv src x y\<close> is the bilinear sample of \<open>src\<close> at the
  coordinates \<open>(x, y)\<close> with the border replicated, and \<open>resize_px cv src h w y x\<close>
  is the pixel \<open>(y, x)\<close> of \<open>src\<close> resized to \<open>h\<close> rows and \<open>w\<close> columns.
\<close>

record cv2 =
  remap_px :: "image \<Rightarrow> fval \<Rightarrow> fval \<Rightarrow> pixel"
  resize_px :: "image \<Rightarrow> nat \<Rightarrow> nat \<Rightarrow> nat \<Rightarrow> nat \<Rightarrow> pixel"

definition cv2_remap :: "cv2 \<Rightarrow> image \<Rightarrow> fval list list \<Rightarrow> fval list list \<Rightarrow> error + image" where
  \<comment> \<open>\<open>cv2.remap(src, map_x, map_y, INTER_LINEAR, borderMode=BORDER_REPLICATE)\<close>: the
      result has the size of \<open>map_x\<close>; an empty map and maps of different sizes are
      rejected\<close>
  "cv2_remap cv src map_x map_y =
     (if concat map_x = [] \<or> map length map_x \<noteq> map length map_y then Inl CvError
      else Inr (map2 (map2 (remap_px cv src)) map_x map_y))"

definition cv2_resize :: "cv2 \<Rightarrow> image \<Rightarrow> int \<times> int \<Rightarrow> error + image" where
  \<comment> \<open>\<open>cv2.resize(src, (w, h))\<close>, bilinear: an empty source and a size that is not
      positive are rejected\<close>
  "cv2_resize cv src dsize =
     (case dsize of (w, h) \<Rightarrow>
        if concat src = [] \<or> w \<le> 0 \<or> h \<le> 0 then Inl CvError
        else Inr (map (\<lambda>y. map (\<lambda>x. resize_px cv src (nat h) (nat w) y x) [0..<nat w])
                      [0..<nat h]))"

definition pad_replicate :: "nat \<Rightarrow> nat \<Rightarrow> 'a list \<Rightarrow> 'a list" where
  \<comment> \<open>\<open>a\<close> copies of the first element before the list and \<open>b\<close> copies of the last after it\<close>
  "pad_replicate a b xs =
     (case xs of [] \<Rightarrow> [] | x # _ \<Rightarrow> replicate a x @ xs @ replicate b (last xs))"

definition cv2_copyMakeBorder :: "image \<Rightarrow> int \<Rightarrow> int \<Rightarrow> int \<Rightarrow> int \<Rightarrow> error + image" where
  \<comment> \<open>\<open>cv2.copyMakeBorder(src, top, bottom, left, right, BORDER_REPLICATE)\<close>: OpenCV
      asserts that the four border widths are not negative\<close>
  "cv2_copyMakeBorder src b_top b_bottom b_left b_right =
     (if b_top < 0 \<or> b_bottom < 0 \<or> b_left < 0 \<or> b_right < 0 then Inl CvError
      else Inr (pad_replicate (nat b_top) (nat b_bottom)
                  (map (pad_replicate (nat b_left) (nat b_right)) src)))"

section \<open>Motion parameters and the two warps\<close>

definition parallax_offset_x :: "real \<Rightarrow> real \<Rightarrow> real" where
  "parallax_offset_x phase intensity = sin phase * 20 * intensity"

definition parallax_offset_y :: "real \<Rightarrow> real \<Rightarrow> real" where
  "parallax_offset_y phase intensity = cos (phase * 0.5) * 10 * intensity"

definition zoom_factor_of :: "real \<Rightarrow> real \<Rightarrow> real" where
  "zoom_factor_of phase intensity = 1.0 + (sin phase * 0.1 * intensity)"

definition sway_offset_x :: "real \<Rightarrow> real \<Rightarrow> real" where
  "sway_offset_x phase intensity = sin phase * 15 * intensity"

definition displaced :: "real list list \<Rightarrow> fval list list \<Rightarrow> real \<Rightarrow> real \<Rightarrow> error + fval list list" where
  \<comment> \<open>\<open>np.clip(grid + (depth_map * offset).astype(np.float32), 0, bound)\<close>\<close>
  "displaced grid depth_map offset bound =
     (case np_binop np_add grid (astype_float32 (map (map (\<lambda>d. np_mul d offset)) depth_map)) of
        Inl e \<Rightarrow> Inl e
      | Inr moved \<Rightarrow> Inr (map (map (\<lambda>v. np_clip v 0 bound)) moved))"

definition x_displaced :: "image \<Rightarrow> fval list list \<Rightarrow> real \<Rightarrow> error + fval list list" where
  "x_displaced img depth_map offset_x =
     displaced (meshgrid_x (height img) (width img)) depth_map offset_x
       (real_of_int (int (width img) - 1))"

definition y_displaced :: "image \<Rightarrow> fval list list \<Rightarrow> real \<Rightarrow> error + fval list list" where
  "y_displaced img depth_map offset_y =
     displaced (meshgrid_y (height img) (width img)) depth_map offset_y
       (real_of_int (int (height img) - 1))"

definition apply_parallax :: "cv2 \<Rightarrow> image \<Rightarrow> fval list list \<Rightarrow> real \<Rightarrow> real \<Rightarrow> error + image" where
  \<comment> \<open>\<open>_apply_parallax\<close>: the x map is computed before the y map\<close>
  "apply_parallax cv img depth_map offset_x offset_y =
     (case x_displaced img depth_map offset_x of
        Inl e \<Rightarrow> Inl e
      | Inr xd \<Rightarrow>
          (case y_displaced img depth_map offset_y of
             Inl e \<Rightarrow> Inl e
           | Inr yd \<Rightarrow> cv2_remap cv img (astype_float32 xd) (astype_float32 yd)))"

definition apply_zoom :: "cv2 \<Rightarrow> image \<Rightarrow> fval list list \<Rightarrow> real \<Rightarrow> error + image" where
  \<comment> \<open>\<open>_apply_zoom\<close>; the depth map is not used\<close>
  "apply_zoom cv img depth_map zoom_factor =
     (let h = int (height img); w = int (width img);
          new_height = py_int (real_of_int h * zoom_factor);
          new_width = py_int (real_of_int w * zoom_factor)
      in case cv2_resize cv img (new_width, new_height) of
           Inl e \<Rightarrow> Inl e
         | Inr zoomed \<Rightarrow>
             (let y_offset = (new_height - h) div 2;
                  x_offset = (new_width - w) div 2
              in if zoom_factor > 1.0
                 then Inr (map (\<lambda>r. py_slice r x_offset (x_offset + w))
                             (py_slice zoomed y_offset (y_offset + h)))
                 else (case cv2_copyMakeBorder zoomed y_offset y_offset x_offset x_offset of
                         Inl e \<Rightarrow> Inl e
                       | Inr frame \<Rightarrow> cv2_resize cv frame (w, h))))"

section \<open>The frame loop (\<open>generate_parallax_frames\<close>)\<close>

definition phase_of :: "nat \<Rightarrow> int \<Rightarrow> real" where
  \<comment> \<open>\<open>t = i / num_frames; phase = t * 2 * math.pi\<close>\<close>
  "phase_of i num_frames = real i / real_of_int num_frames * 2 * pi"

definition make_frame :: "cv2 \<Rightarrow> image \<Rightarrow> fval list list \<Rightarrow> string \<Rightarrow> real \<Rightarrow> real \<Rightarrow> error + image" where
  \<comment> \<open>the dispatch on the effect in the body of the loop; \<open>image.copy()\<close> is the image\<close>
  "make_frame cv img depth_map effect intensity phase =
     (if effect = ''parallax''
      then apply_parallax cv img depth_map
             (parallax_offset_x phase intensity) (parallax_offset_y phase intensity)
      else if effect = ''zoom''
      then apply_zoom cv img depth_map (zoom_factor_of phase intensity)
      else if effect = ''sway''
      then apply_parallax cv img depth_map (sway_offset_x phase intensity) 0
      else Inr img)"

fun frames_loop :: "(nat \<Rightarrow> error + image) \<Rightarrow> nat list \<Rightarrow> image list \<Rightarrow> error + image list" where
  \<comment> \<open>\<open>for i in ...: frames.append(frame)\<close>; an exception ends the loop\<close>
  "frames_loop body [] frames = Inr frames"
| "frames_loop body (i # rest) frames =
     (case body i of
        Inl e \<Rightarrow> Inl e
      | Inr frame \<Rightarrow> frames_loop body rest (frames @ [frame]))"

definition generate_parallax_frames ::
  "cv2 \<Rightarrow> image \<Rightarrow> fval list list \<Rightarrow> int \<Rightarrow> string \<Rightarrow> real \<Rightarrow> error + image list" where
  \<comment> \<open>\<open>range(num_frames)\<close> is empty when \<open>num_frames\<close> is not positive\<close>
  "generate_parallax_frames cv img depth_map num_frames effect intensity =
     frames_loop
       (\<lambda>i. make_frame cv img depth_map effect intensity (phase_of i num_frames))
       [0..<nat num_frames] []"

section \<open>The pipeline (\<open>generate\<close>)\<close>

text \<open>
  The collaborators of the pipeline are parameters: \<open>hub_load\<close> is the depth model
  that \<open>torch.hub.load\<close> returns (with the interpolation to the size of the image),
  or nothing when loading fails; \<open>read_image\<close> is the image at a path or URL, or
  nothing when it cannot be read; \<open>writer_opened\<close> tells whether the video writer
  opens. \<open>load_model\<close>, \<open>load_image\<close> and \<open>encode_video\<close> end the process with
  \<open>sys.exit(1)\<close> on these failures.
\<close>

record env =
  hub_load :: "(image \<Rightarrow> real list list) option"
  read_image :: "string \<Rightarrow> image option"
  writer_opened :: bool

datatype stage =
  MakeDirs | LoadModel | LoadImage | EstimateDepth | SaveDepthVisualization
  | GenerateFrames | EncodeVideo

definition load_model :: "env \<Rightarrow> error + (image \<Rightarrow> real list list)" where
  "load_model e = (case hub_load e of None \<Rightarrow> Inl SystemExit | Some m \<Rightarrow> Inr m)"

definition load_image :: "env \<Rightarrow> string \<Rightarrow> error + image" where
  "load_image e input_path =
     (case read_image e input_path of None \<Rightarrow> Inl SystemExit | Some img \<Rightarrow> Inr img)"

definition encode_video :: "env \<Rightarrow> image list \<Rightarrow> int \<Rightarrow> error + image list" where
  \<comment> \<open>\<open>frames[0].shape\<close> is read first; the result is the frames written to the video\<close>
  "encode_video e frames fps =
     (case frames of
        [] \<Rightarrow> Inl IndexError
      | first # _ \<Rightarrow> if writer_opened e then Inr frames else Inl SystemExit)"

text \<open>
  The number of frames is \<open>int(duration * fps)\<close>, where \<open>duration\<close> is a float and
  \<open>fps\<close> an int. Python converts \<open>fps\<close> to a double, multiplies the two doubles
  and rounds the product to a double, and \<open>int\<close> truncates it. The rounding is the
  parameter \<open>fl\<close>: \<open>fl x\<close> is the double nearest to the real number \<open>x\<close>, or
  an infinity when \<open>x\<close> lies beyond the largest double. Where a product is a double
  itself, as in the concrete runs below, the rounding returns it: there \<open>fl\<close> is
  \<open>Fin\<close>.
\<close>

definition py_float :: "(real \<Rightarrow> fval) \<Rightarrow> int \<Rightarrow> error + real" where
  \<comment> \<open>the conversion of an int operand to a float: an int beyond the doubles raises
      OverflowError\<close>
  "py_float fl n = (case fl (real_of_int n) of Fin r \<Rightarrow> Inr r | _ \<Rightarrow> Inl OverflowError)"

fun float_mul :: "(real \<Rightarrow> fval) \<Rightarrow> fval \<Rightarrow> real \<Rightarrow> fval" where
  \<comment> \<open>the product of a float and a finite float\<close>
  "float_mul fl (Fin a) b = fl (a * b)"
| "float_mul fl PInf b = (if b = 0 then NaN else if 0 < b then PInf else NInf)"
| "float_mul fl NInf b = (if b = 0 then NaN else if 0 < b then NInf else PInf)"
| "float_mul fl NaN b = NaN"

fun int_of_float :: "fval \<Rightarrow> error + int" where
  \<comment> \<open>\<open>int(x)\<close> of a float: an infinity raises OverflowError, \<open>nan\<close> ValueError\<close>
  "int_of_float (Fin r) = Inr (py_int r)"
| "int_of_float PInf = Inl OverflowError"
| "int_of_float NInf = Inl OverflowError"
| "int_of_float NaN = Inl ValueError"

definition num_frames_of :: "(real \<Rightarrow> fval) \<Rightarrow> fval \<Rightarrow> int \<Rightarrow> error + int" where
  \<comment> \<open>\<open>num_frames = int(duration * fps)\<close>\<close>
  "num_frames_of fl duration fps =
     (case py_float fl fps of
        Inl err \<Rightarrow> Inl err
      | Inr f \<Rightarrow> int_of_float (float_mul fl duration f))"

definition generate ::
  "(real \<Rightarrow> fval) \<Rightarrow> env \<Rightarrow> cv2 \<Rightarrow> string \<Rightarrow> string \<Rightarrow> fval \<Rightarrow> int \<Rightarrow> real
     \<Rightarrow> stage list \<times> (error + image list)" where
  \<comment> \<open>\<open>generate\<close> of a generator whose model is not loaded yet, as \<open>main\<close> calls it.
      The result is the list of the stages entered, in order, and the frames of the
      video or the exception\<close>
  "generate fl e cv input_path effect duration fps intensity =
     (case load_model e of
        Inl err \<Rightarrow> ([MakeDirs, LoadModel], Inl err)
      | Inr predict \<Rightarrow>
     (case load_image e input_path of
        Inl err \<Rightarrow> ([MakeDirs, LoadModel, LoadImage], Inl err)
      | Inr image_np \<Rightarrow>
     (case estimate_depth predict image_np of
        Inl err \<Rightarrow> ([MakeDirs, LoadModel, LoadImage, EstimateDepth], Inl err)
      | Inr depth_map \<Rightarrow>
     (case num_frames_of fl duration fps of
        Inl err \<Rightarrow>
          ([MakeDirs, LoadModel, LoadImage, EstimateDepth, SaveDepthVisualization], Inl err)
      | Inr num_frames \<Rightarrow>
     (case generate_parallax_frames cv image_np depth_map num_frames effect intensity of
        Inl err \<Rightarrow>
          ([MakeDirs, LoadModel, LoadImage, EstimateDepth, SaveDepthVisualization,
            GenerateFrames], Inl err)
      | Inr frames \<Rightarrow>
          ([MakeDirs, LoadModel, LoadImage, EstimateDepth, SaveDepthVisualization,
            GenerateFrames, EncodeVideo], encode_video e frames fps))))))"

section \<open>A sampler for concrete runs\<close>

text \<open>
  The contract of OpenCV's bilinear interpolation that the generator relies on when
  nothing moves: a sample taken exactly at a pixel is that pixel, and a resize to the
  size of the source reproduces the source. \<open>nearest_cv\<close> is a sampler with this
  property (the nearest pixel above and to the left), used to run the model on
  concrete images.
\<close>

definition exact_on_grid :: "cv2 \<Rightarrow> bool" where
  "exact_on_grid cv =
     (\<forall>src h w y x. rect src h w \<and> y < h \<and> x < w \<longrightarrow>
        remap_px cv src (Fin (real x)) (Fin (real y)) = src ! y ! x
        \<and> resize_px cv src h w y x = src ! y ! x)"

definition px_at :: "image \<Rightarrow> nat \<Rightarrow> nat \<Rightarrow> pixel" where
  "px_at src y x = (if y < length src \<and> x < length (src ! y) then src ! y ! x else (0, 0, 0))"

definition coord_index :: "fval \<Rightarrow> nat" where
  "coord_index v = (case v of Fin r \<Rightarrow> nat \<lfloor>r\<rfloor> | _ \<Rightarrow> 0)"

definition nearest_cv :: cv2 where
  "nearest_cv =
     \<lparr> remap_px = (\<lambda>src x y. px_at src (coord_index y) (coord_index x)),
       resize_px = (\<lambda>src h w y x. px_at src (y * height src div h) (x * width src div w)) \<rparr>"

section \<open>Arrays as buffers in a store\<close>

text \<open>
  A numpy array is an object with a buffer that an assignment to its elements would
  change for everyone who holds it. To state what the frame loop does to the arrays it
  is given, the arrays live in a store: a list of buffers, the address of a buffer
  being its position. An array is a whole buffer or a view of a part of one, as a
  slice is. Every call of numpy and OpenCV in \<open>generate_parallax_frames\<close>,
  \<open>_apply_parallax\<close> and \<open>_apply_zoom\<close> returns a new array: it allocates a buffer at
  the end of the store. None of them is given an output argument and no statement
  assigns to an element of an array, so the model has no operation that writes to a
  buffer that exists.
\<close>

datatype buffer = Pixels image | Floats "fval list list" | Coords "real list list"

type_synonym store = "buffer list"

datatype ndarray = Whole nat | View nat int int int int

fun base :: "ndarray \<Rightarrow> nat" where
  "base (Whole a) = a"
| "base (View a y0 y1 x0 x1) = a"

definition window :: "ndarray \<Rightarrow> 'a list list \<Rightarrow> 'a list list" where
  \<comment> \<open>the part of the buffer that the array shows: \<open>a[y0:y1, x0:x1]\<close> for a view\<close>
  "window r a =
     (case r of
        Whole _ \<Rightarrow> a
      | View _ y0 y1 x0 x1 \<Rightarrow> map (\<lambda>row. py_slice row x0 x1) (py_slice a y0 y1))"

definition pixels :: "store \<Rightarrow> ndarray \<Rightarrow> image" where
  "pixels s r =
     (if base r < length s
      then (case s ! base r of Pixels p \<Rightarrow> window r p | _ \<Rightarrow> [])
      else [])"

definition floats :: "store \<Rightarrow> ndarray \<Rightarrow> fval list list" where
  "floats s r =
     (if base r < length s
      then (case s ! base r of Floats f \<Rightarrow> window r f | _ \<Rightarrow> [])
      else [])"

definition coords :: "store \<Rightarrow> ndarray \<Rightarrow> real list list" where
  "coords s r =
     (if base r < length s
      then (case s ! base r of Coords c \<Rightarrow> window r c | _ \<Rightarrow> [])
      else [])"

definition alloc :: "buffer \<Rightarrow> store \<Rightarrow> ndarray \<times> store" where
  "alloc b s = (Whole (length s), s @ [b])"

definition displaced_sum_st ::
  "ndarray \<Rightarrow> ndarray \<Rightarrow> real \<Rightarrow> store \<Rightarrow> (error + ndarray) \<times> store" where
  \<comment> \<open>\<open>coords + (depth_map * offset).astype(np.float32)\<close>: the product, its cast and the
      sum are three new arrays\<close>
  "displaced_sum_st cs depth_map offset s =
     (let (product, s1) = alloc (Floats (map (map (\<lambda>d. np_mul d offset)) (floats s depth_map))) s;
          (cast, s2) = alloc (Floats (astype_float32 (floats s1 product))) s1
      in case np_binop np_add (coords s2 cs) (floats s2 cast) of
           Inl e \<Rightarrow> (Inl e, s2)
         | Inr moved \<Rightarrow> (let (r, s3) = alloc (Floats moved) s2 in (Inr r, s3)))"

definition clip_st :: "ndarray \<Rightarrow> real \<Rightarrow> store \<Rightarrow> ndarray \<times> store" where
  \<comment> \<open>\<open>np.clip(a, 0, bound)\<close>\<close>
  "clip_st a bound s = alloc (Floats (map (map (\<lambda>v. np_clip v 0 bound)) (floats s a))) s"

definition astype_st :: "ndarray \<Rightarrow> store \<Rightarrow> ndarray \<times> store" where
  \<comment> \<open>\<open>a.astype(np.float32)\<close> copies\<close>
  "astype_st a s = alloc (Floats (astype_float32 (floats s a))) s"

definition remap_st :: "cv2 \<Rightarrow> ndarray \<Rightarrow> ndarray \<Rightarrow> ndarray \<Rightarrow> store \<Rightarrow> (error + ndarray) \<times> store" where
  "remap_st cv src map_x map_y s =
     (case cv2_remap cv (pixels s src) (floats s map_x) (floats s map_y) of
        Inl e \<Rightarrow> (Inl e, s)
      | Inr dst \<Rightarrow> (let (r, s1) = alloc (Pixels dst) s in (Inr r, s1)))"

definition resize_st :: "cv2 \<Rightarrow> ndarray \<Rightarrow> int \<times> int \<Rightarrow> store \<Rightarrow> (error + ndarray) \<times> store" where
  "resize_st cv src dsize s =
     (case cv2_resize cv (pixels s src) dsize of
        Inl e \<Rightarrow> (Inl e, s)
      | Inr dst \<Rightarrow> (let (r, s1) = alloc (Pixels dst) s in (Inr r, s1)))"

definition copyMakeBorder_st ::
  "ndarray \<Rightarrow> int \<Rightarrow> int \<Rightarrow> int \<Rightarrow> int \<Rightarrow> store \<Rightarrow> (error + ndarray) \<times> store" where
  "copyMakeBorder_st src b_top b_bottom b_left b_right s =
     (case cv2_copyMakeBorder (pixels s src) b_top b_bottom b_left b_right of
        Inl e \<Rightarrow> (Inl e, s)
      | Inr dst \<Rightarrow> (let (r, s1) = alloc (Pixels dst) s in (Inr r, s1)))"

definition apply_parallax_st ::
  "cv2 \<Rightarrow> ndarray \<Rightarrow> ndarray \<Rightarrow> real \<Rightarrow> real \<Rightarrow> store \<Rightarrow> (error + ndarray) \<times> store" where
  \<comment> \<open>\<open>_apply_parallax\<close>, statement by statement\<close>
  "apply_parallax_st cv img depth_map offset_x offset_y s =
     (let h = height (pixels s img); w = width (pixels s img);
          (y_coords, s1) = alloc (Coords (meshgrid_y h w)) s;
          (x_coords, s2) = alloc (Coords (meshgrid_x h w)) s1
      in case displaced_sum_st x_coords depth_map offset_x s2 of
           (Inl e, s3) \<Rightarrow> (Inl e, s3)
         | (Inr x_sum, s3) \<Rightarrow>
        (case displaced_sum_st y_coords depth_map offset_y s3 of
           (Inl e, s4) \<Rightarrow> (Inl e, s4)
         | (Inr y_sum, s4) \<Rightarrow>
             (let (x_clip, s5) = clip_st x_sum (real_of_int (int w - 1)) s4;
                  (y_clip, s6) = clip_st y_sum (real_of_int (int h - 1)) s5;
                  (x_map, s7) = astype_st x_clip s6;
                  (y_map, s8) = astype_st y_clip s7
              in remap_st cv img x_map y_map s8)))"

definition apply_zoom_st ::
  "cv2 \<Rightarrow> ndarray \<Rightarrow> ndarray \<Rightarrow> real \<Rightarrow> store \<Rightarrow> (error + ndarray) \<times> store" where
  \<comment> \<open>\<open>_apply_zoom\<close>: the crop of the zoomed image is a slice, a view of the buffer that
      \<open>cv2.resize\<close> allocated\<close>
  "apply_zoom_st cv img depth_map zoom_factor s =
     (let h = int (height (pixels s img)); w = int (width (pixels s img));
          new_height = py_int (real_of_int h * zoom_factor);
          new_width = py_int (real_of_int w * zoom_factor)
      in case resize_st cv img (new_width, new_height) s of
           (Inl e, s1) \<Rightarrow> (Inl e, s1)
         | (Inr zoomed, s1) \<Rightarrow>
             (let y_offset = (new_height - h) div 2;
                  x_offset = (new_width - w) div 2
              in if zoom_factor > 1.0
                 then (Inr (View (base zoomed) y_offset (y_offset + h) x_offset (x_offset + w)),
                       s1)
                 else (case copyMakeBorder_st zoomed y_offset y_offset x_offset x_offset s1 of
                         (Inl e, s2) \<Rightarrow> (Inl e, s2)
                       | (Inr frame, s2) \<Rightarrow> resize_st cv frame (w, h) s2)))"

definition make_frame_st ::
  "cv2 \<Rightarrow> ndarray \<Rightarrow> ndarray \<Rightarrow> string \<Rightarrow> real \<Rightarrow> real \<Rightarrow> store \<Rightarrow> (error + ndarray) \<times> store" where
  \<comment> \<open>the body of the loop; \<open>image.copy()\<close> allocates the copy\<close>
  "make_frame_st cv img depth_map effect intensity phase s =
     (if effect = ''parallax''
      then apply_parallax_st cv img depth_map
             (parallax_offset_x phase intensity) (parallax_offset_y phase intensity) s
      else if effect = ''zoom''
      then apply_zoom_st cv img depth_map (zoom_factor_of phase intensity) s
      else if effect = ''sway''
      then apply_parallax_st cv img depth_map (sway_offset_x phase intensity) 0 s
      else (let (r, s1) = alloc (Pixels (pixels s img)) s in (Inr r, s1)))"

fun frames_loop_st ::
  "(nat \<Rightarrow> store \<Rightarrow> (error + ndarray) \<times> store) \<Rightarrow> nat list \<Rightarrow> ndarray list \<Rightarrow> store
     \<Rightarrow> (error + ndarray list) \<times> store" where
  "frames_loop_st body [] frames s = (Inr frames, s)"
| "frames_loop_st body (i # rest) frames s =
     (case body i s of
        (Inl e, s1) \<Rightarrow> (Inl e, s1)
      | (Inr frame, s1) \<Rightarrow> frames_loop_st body rest (frames @ [frame]) s1)"

definition generate_parallax_frames_st ::
  "cv2 \<Rightarrow> ndarray \<Rightarrow> ndarray \<Rightarrow> int \<Rightarrow> string \<Rightarrow> real \<Rightarrow> store
     \<Rightarrow> (error + ndarray list) \<times> store" where
  "generate_parallax_frames_st cv img depth_map num_frames effect intensity s =
     frames_loop_st
       (\<lambda>i. make_frame_st cv img depth_map effect intensity (phase_of i num_frames))
       [0..<nat num_frames] [] s"

definition returns :: "store \<Rightarrow> error + image \<Rightarrow> (error + ndarray) \<times> store \<Rightarrow> bool" where
  \<comment> \<open>the outcome of a call at the store \<open>s\<close>: the store has only grown at its end; the
      call raises what the function on values raises, or returns an array in a buffer
      that the call allocated, holding the value of the function\<close>
  "returns s val out =
     (case out of (res, s') \<Rightarrow>
        prefix s s' \<and>
        (case res of
           Inl e \<Rightarrow> val = Inl e
         | Inr r \<Rightarrow> length s \<le> base r \<and> base r < length s' \<and> val = Inr (pixels s' r)))"


section \<open>Properties of the depth normalisation\<close>

subsection \<open>Facts about the minimum and the maximum\<close>

lemma arr_min_Min: "concat a \<noteq> [] \<Longrightarrow> arr_min a = Min (set (concat a))"
  by (cases "concat a") (simp_all add: arr_min_def Min.set_eq_fold [symmetric])

lemma arr_max_Max: "concat a \<noteq> [] \<Longrightarrow> arr_max a = Max (set (concat a))"
  by (cases "concat a") (simp_all add: arr_max_def Max.set_eq_fold [symmetric])

lemma arr_min_le: "v \<in> set (concat a) \<Longrightarrow> arr_min a \<le> v"
  using arr_min_Min [of a] by (cases "concat a = []") auto

lemma arr_max_ge: "v \<in> set (concat a) \<Longrightarrow> v \<le> arr_max a"
  using arr_max_Max [of a] by (cases "concat a = []") auto

lemma arr_min_mem: "concat a \<noteq> [] \<Longrightarrow> arr_min a \<in> set (concat a)"
  using arr_min_Min [of a] Min_in [of "set (concat a)"] by simp

lemma arr_max_mem: "concat a \<noteq> [] \<Longrightarrow> arr_max a \<in> set (concat a)"
  using arr_max_Max [of a] Max_in [of "set (concat a)"] by simp


lemma normalize_uniform:
  assumes "concat raw \<noteq> []" and "arr_max raw = arr_min raw"
  shows "normalize raw = Inr (map (map (\<lambda>_. NaN)) raw)"
proof -
  have "v = arr_min raw" if "v \<in> set (concat raw)" for v
    using arr_min_le [OF that] arr_max_ge [OF that] assms(2) by simp
  then have "np_div (v - arr_min raw) (arr_max raw - arr_min raw) = NaN"
    if "r \<in> set raw" "v \<in> set r" for r v
    using that assms(2) by (auto simp: np_div_def)
  then show ?thesis
    using assms(1) by (simp add: normalize_def)
qed

text \<open>
  Claim C1. A raw depth field whose values are all equal should be normalised to the
  field of zeros of the same dimensions, with no exception and no NaN. The code has
  no guard for that case: the divisor \<open>max - min\<close> is zero, every element is
  \<open>0 / 0\<close>, and the result is the field of NaN (lemma \<open>normalize_uniform\<close> for
  every such field). The theorem evaluates the normalisation of the 2 by 2 field of
  the value 0.5.
\<close>

theorem normalize_uniform_is_nan:
  "estimate_depth (\<lambda>_. [[1/2, 1/2], [1/2, 1/2]]) image_pil
     = Inr [[NaN, NaN], [NaN, NaN]]"
  by (simp add: estimate_depth_def normalize_def arr_min_def arr_max_def np_div_def)

text \<open>
  Claim C7. For every raw depth field with \<open>max(raw) > min(raw)\<close>, the normalised
  field \<open>(raw - min(raw)) / (max(raw) - min(raw))\<close> is a field of finite numbers of
  the same dimensions, every value lies in \<open>[0, 1]\<close>, its minimum is exactly 0 and
  its maximum is exactly 1.
\<close>

theorem normalize_range:
  assumes "concat raw \<noteq> []" and "arr_min raw < arr_max raw"
  shows "\<exists>norm. normalize raw = Inr (map (map Fin) norm)
           \<and> map length norm = map length raw
           \<and> (\<forall>v \<in> set (concat norm). 0 \<le> v \<and> v \<le> 1)
           \<and> arr_min norm = 0 \<and> arr_max norm = 1"
proof -
  define mn where "mn = arr_min raw"
  define mx where "mx = arr_max raw"
  define f where "f = (\<lambda>v. (v - mn) / (mx - mn))"
  define norm where "norm = map (map f) raw"
  have pos: "0 < mx - mn" using assms(2) by (simp add: mn_def mx_def)
  have eq: "normalize raw = Inr (map (map Fin) norm)"
    using assms(1) pos by (simp add: normalize_def norm_def f_def np_div_def mn_def mx_def)
  have shape: "map length norm = map length raw" by (simp add: norm_def)
  have flat: "concat norm = map f (concat raw)" by (simp add: norm_def map_concat)
  have rng: "0 \<le> f v \<and> f v \<le> 1" if "v \<in> set (concat raw)" for v
    using arr_min_le [OF that] arr_max_ge [OF that] pos by (simp add: f_def mn_def mx_def)
  have ne: "concat norm \<noteq> []" using assms(1) flat by simp
  have f0: "f mn = 0" by (simp add: f_def)
  have f1: "f mx = 1" using pos by (simp add: f_def)
  have in0: "0 \<in> set (concat norm)"
    using arr_min_mem [OF assms(1)] f0 flat by (force simp: mn_def)
  have in1: "1 \<in> set (concat norm)"
    using arr_max_mem [OF assms(1)] f1 flat by (force simp: mx_def)
  have all: "\<forall>v \<in> set (concat norm). 0 \<le> v \<and> v \<le> 1" using rng flat by auto
  have "Min (set (concat norm)) = 0"
    by (rule Min_eqI) (use in0 all in blast)+
  then have "arr_min norm = 0"
    using arr_min_Min [OF ne] by simp
  moreover have "Max (set (concat norm)) = 1"
    by (rule Max_eqI) (use in1 all in blast)+
  then have "arr_max norm = 1"
    using arr_max_Max [OF ne] by simp
  ultimately show ?thesis using eq shape all by blast
qed

theorem normalize_range_witness:
  "concat [[1, 3], [2, 5 :: real]] \<noteq> [] \<and> arr_min [[1, 3], [2, 5]] < arr_max [[1, 3], [2, 5]]
   \<and> (\<exists>norm. normalize [[1, 3], [2, 5]] = Inr (map (map Fin) norm)
           \<and> map length norm = map length [[1, 3], [2, 5 :: real]]
           \<and> (\<forall>v \<in> set (concat norm). 0 \<le> v \<and> v \<le> 1)
           \<and> arr_min norm = 0 \<and> arr_max norm = 1)"
proof -
  have a: "concat [[1, 3], [2, 5 :: real]] \<noteq> []" by simp
  have b: "arr_min [[1, 3], [2, 5]] < arr_max [[1, 3], [2, 5]]"
    by (simp add: arr_min_def arr_max_def)
  show ?thesis using a b normalize_range [OF a b] by blast
qed


section \<open>Shapes of arrays\<close>

lemma rect_iff: "rect a h w \<longleftrightarrow> map length a = replicate h w"
  by (auto simp: rect_def list_all_length list_eq_iff_nth_eq)

lemma rect_height: "rect a h w \<Longrightarrow> height a = h"
  by (simp add: rect_def height_def)

lemma rect_width: "rect a h w \<Longrightarrow> 0 < h \<Longrightarrow> width a = w"
  by (cases a) (auto simp: rect_def width_def)

lemma rect_nth: "rect a h w \<Longrightarrow> y < h \<Longrightarrow> length (a ! y) = w"
  by (auto simp: rect_def list_all_length)

lemma rect_concat: "rect a h w \<Longrightarrow> 0 < h \<Longrightarrow> 0 < w \<Longrightarrow> concat a \<noteq> []"
  by (cases a) (auto simp: rect_def)

lemma rect_map: "rect (map (map f) a) h w = rect a h w"
  by (simp add: rect_def list_all_length)

lemma rect_meshgrid_x: "rect (meshgrid_x h w) h w"
  by (simp add: rect_def meshgrid_x_def list_all_length)

lemma rect_meshgrid_y: "rect (meshgrid_y h w) h w"
  by (simp add: rect_def meshgrid_y_def list_all_length)

lemma np_binop_rect:
  assumes "rect a h w" and "rect b h w"
  shows "np_binop f a b = Inr (map2 (map2 f) a b)"
  using assms by (simp add: np_binop_def rect_iff)

lemma rect_map2:
  assumes "rect a h w" and "rect b h w"
  shows "rect (map2 (map2 f) a b) h w"
  using assms by (simp add: rect_def list_all_length)

lemma nth_map2_rect:
  assumes "rect a h w" and "rect b h w" and "y < h" and "x < w"
  shows "map2 (map2 f) a b ! y ! x = f (a ! y ! x) (b ! y ! x)"
  using assms by (simp add: rect_def list_all_length)


section \<open>The field warp\<close>

lemma displaced_rect:
  assumes "rect grid h w" and "rect depth_map h w"
  shows "displaced grid depth_map k b =
           Inr (map (map (\<lambda>v. np_clip v 0 b))
                  (map2 (map2 np_add) grid (map (map (\<lambda>d. np_mul d k)) depth_map)))"
  using assms np_binop_rect [of grid h w "map (map (\<lambda>d. np_mul d k)) depth_map" np_add]
  by (simp add: displaced_def astype_float32_def rect_map)

lemma displaced_nth:
  assumes "rect grid h w" and "rect depth_map h w" and "y < h" and "x < w"
  shows "map (map (\<lambda>v. np_clip v 0 b))
           (map2 (map2 np_add) grid (map (map (\<lambda>d. np_mul d k)) depth_map)) ! y ! x
         = np_clip (np_add (grid ! y ! x) (np_mul (depth_map ! y ! x) k)) 0 b"
proof -
  let ?m = "map (map (\<lambda>d. np_mul d k)) depth_map"
  have rm: "rect ?m h w" using assms(2) by (simp add: rect_map)
  have r2: "rect (map2 (map2 np_add) grid ?m) h w" by (rule rect_map2 [OF assms(1) rm])
  have ly: "y < length depth_map" "x < length (depth_map ! y)"
    using assms(2-4) by (auto simp: rect_def list_all_length)
  have l2: "y < length (map2 (map2 np_add) grid ?m)"
           "x < length (map2 (map2 np_add) grid ?m ! y)"
    using r2 assms(3,4) by (auto simp: rect_def list_all_length)
  have "map2 (map2 np_add) grid ?m ! y ! x = np_add (grid ! y ! x) (?m ! y ! x)"
    by (rule nth_map2_rect [OF assms(1) rm assms(3,4)])
  moreover have "?m ! y ! x = np_mul (depth_map ! y ! x) k" using ly by simp
  ultimately show ?thesis using l2 by simp
qed

lemma meshgrid_x_nth: "y < h \<Longrightarrow> x < w \<Longrightarrow> meshgrid_x h w ! y ! x = real x"
  by (simp add: meshgrid_x_def)

lemma meshgrid_y_nth: "y < h \<Longrightarrow> x < w \<Longrightarrow> meshgrid_y h w ! y ! x = real y"
  by (simp add: meshgrid_y_def)

lemma x_displaced_rect:
  assumes "rect img h w" and "rect depth_map h w" and "0 < h"
  shows "\<exists>xd. x_displaced img depth_map k = Inr xd \<and> rect xd h w
           \<and> (\<forall>y<h. \<forall>x<w. xd ! y ! x
                  = np_clip (np_add (real x) (np_mul (depth_map ! y ! x) k)) 0 (real w - 1))"
proof -
  have hw: "height img = h" "width img = w"
    using assms(1,3) by (simp_all add: rect_height rect_width)
  let ?xd = "map (map (\<lambda>v. np_clip v 0 (real w - 1)))
               (map2 (map2 np_add) (meshgrid_x h w) (map (map (\<lambda>d. np_mul d k)) depth_map))"
  have "x_displaced img depth_map k = Inr ?xd"
    using displaced_rect [OF rect_meshgrid_x assms(2), of k "real w - 1"]
    by (simp add: x_displaced_def hw)
  moreover have "rect ?xd h w"
  proof -
    have "rect (map (map (\<lambda>d. np_mul d k)) depth_map) h w"
      using assms(2) by (simp only: rect_map)
    then have "rect (map2 (map2 np_add) (meshgrid_x h w)
                 (map (map (\<lambda>d. np_mul d k)) depth_map)) h w"
      by (rule rect_map2 [OF rect_meshgrid_x])
    then show ?thesis by (simp only: rect_map)
  qed
  moreover have "?xd ! y ! x = np_clip (np_add (real x) (np_mul (depth_map ! y ! x) k)) 0 (real w - 1)"
    if "y < h" "x < w" for y x
    using displaced_nth [OF rect_meshgrid_x assms(2) that, of "real w - 1" k]
      meshgrid_x_nth [OF that] by simp
  ultimately show ?thesis by blast
qed

lemma y_displaced_rect:
  assumes "rect img h w" and "rect depth_map h w" and "0 < h"
  shows "\<exists>yd. y_displaced img depth_map k = Inr yd \<and> rect yd h w
           \<and> (\<forall>y<h. \<forall>x<w. yd ! y ! x
                  = np_clip (np_add (real y) (np_mul (depth_map ! y ! x) k)) 0 (real h - 1))"
proof -
  have hw: "height img = h" "width img = w"
    using assms(1,3) by (simp_all add: rect_height rect_width)
  let ?yd = "map (map (\<lambda>v. np_clip v 0 (real h - 1)))
               (map2 (map2 np_add) (meshgrid_y h w) (map (map (\<lambda>d. np_mul d k)) depth_map))"
  have "y_displaced img depth_map k = Inr ?yd"
    using displaced_rect [OF rect_meshgrid_y assms(2), of k "real h - 1"]
    by (simp add: y_displaced_def hw)
  moreover have "rect ?yd h w"
  proof -
    have "rect (map (map (\<lambda>d. np_mul d k)) depth_map) h w"
      using assms(2) by (simp only: rect_map)
    then have "rect (map2 (map2 np_add) (meshgrid_y h w)
                 (map (map (\<lambda>d. np_mul d k)) depth_map)) h w"
      by (rule rect_map2 [OF rect_meshgrid_y])
    then show ?thesis by (simp only: rect_map)
  qed
  moreover have "?yd ! y ! x = np_clip (np_add (real y) (np_mul (depth_map ! y ! x) k)) 0 (real h - 1)"
    if "y < h" "x < w" for y x
    using displaced_nth [OF rect_meshgrid_y assms(2) that, of "real h - 1" k]
      meshgrid_y_nth [OF that] by simp
  ultimately show ?thesis by blast
qed

lemma cv2_remap_rect:
  assumes "rect xd h w" and "rect yd h w" and "0 < h" and "0 < w"
  shows "cv2_remap cv img xd yd = Inr (map2 (map2 (remap_px cv img)) xd yd)"
  using assms rect_concat [OF assms(1,3,4)] by (simp add: cv2_remap_def rect_iff)

lemma apply_parallax_rect:
  assumes "rect img h w" and "rect depth_map h w" and "0 < h" and "0 < w"
  shows "\<exists>frame. apply_parallax cv img depth_map kx ky = Inr frame \<and> rect frame h w
           \<and> (\<forall>y<h. \<forall>x<w. frame ! y ! x
                 = remap_px cv img
                     (np_clip (np_add (real x) (np_mul (depth_map ! y ! x) kx)) 0 (real w - 1))
                     (np_clip (np_add (real y) (np_mul (depth_map ! y ! x) ky)) 0 (real h - 1)))"
proof -
  obtain xd where xd: "x_displaced img depth_map kx = Inr xd" "rect xd h w"
    "\<forall>y<h. \<forall>x<w. xd ! y ! x
        = np_clip (np_add (real x) (np_mul (depth_map ! y ! x) kx)) 0 (real w - 1)"
    using x_displaced_rect [OF assms(1-3)] by blast
  obtain yd where yd: "y_displaced img depth_map ky = Inr yd" "rect yd h w"
    "\<forall>y<h. \<forall>x<w. yd ! y ! x
        = np_clip (np_add (real y) (np_mul (depth_map ! y ! x) ky)) 0 (real h - 1)"
    using y_displaced_rect [OF assms(1-3)] by blast
  let ?frame = "map2 (map2 (remap_px cv img)) xd yd"
  have "apply_parallax cv img depth_map kx ky = Inr ?frame"
    using xd(1) yd(1) cv2_remap_rect [OF xd(2) yd(2) assms(3,4)]
    by (simp add: apply_parallax_def astype_float32_def)
  moreover have "rect ?frame h w" by (rule rect_map2 [OF xd(2) yd(2)])
  moreover have "?frame ! y ! x = remap_px cv img
                     (np_clip (np_add (real x) (np_mul (depth_map ! y ! x) kx)) 0 (real w - 1))
                     (np_clip (np_add (real y) (np_mul (depth_map ! y ! x) ky)) 0 (real h - 1))"
    if "y < h" "x < w" for y x
    using nth_map2_rect [OF xd(2) yd(2) that, of "remap_px cv img"] xd(3) yd(3) that by simp
  ultimately show ?thesis by blast
qed

lemma rect_nth_mem:
  assumes "rect a h w" and "y < h" and "x < w"
  shows "a ! y ! x \<in> set (concat a)"
proof -
  have "a ! y \<in> set a" using assms(1,2) by (simp add: rect_def)
  moreover have "a ! y ! x \<in> set (a ! y)"
    using assms by (simp add: rect_def list_all_length)
  ultimately show ?thesis by auto
qed


lemma frames_loop_ok:
  "\<forall>i \<in> set idx. body i = Inr (f i) \<Longrightarrow> frames_loop body idx acc = Inr (acc @ map f idx)"
  by (induction idx arbitrary: acc) simp_all

lemma frames_loop_Inr:
  "frames_loop body idx acc = Inr frames \<Longrightarrow>
     \<exists>fs. frames = acc @ fs \<and> length fs = length idx
         \<and> (\<forall>k < length idx. body (idx ! k) = Inr (fs ! k))"
proof (induction idx arbitrary: acc)
  case Nil
  then show ?case by simp
next
  case (Cons i rest)
  then obtain frame where fr: "body i = Inr frame"
    and rec: "frames_loop body rest (acc @ [frame]) = Inr frames"
    by (auto split: sum.splits)
  from Cons.IH [OF rec] obtain fs where fs: "frames = (acc @ [frame]) @ fs"
    "length fs = length rest" "\<forall>k < length rest. body (rest ! k) = Inr (fs ! k)"
    by blast
  have "\<forall>k < length (i # rest). body ((i # rest) ! k) = Inr ((frame # fs) ! k)"
    using fr fs(3) by (auto simp: nth_Cons split: nat.splits)
  then show ?case using fs(1,2) by (intro exI [of _ "frame # fs"]) simp
qed

lemma generate_parallax_frames_iff:
  "generate_parallax_frames cv img depth_map n effect intensity = Inr frames \<longleftrightarrow>
     length frames = nat n
     \<and> (\<forall>i < nat n. make_frame cv img depth_map effect intensity (phase_of i n)
                     = Inr (frames ! i))"
  (is "?L \<longleftrightarrow> ?R")
proof
  assume ?L
  from frames_loop_Inr [OF this [unfolded generate_parallax_frames_def]]
  show ?R by auto
next
  assume r: ?R
  let ?body = "\<lambda>i. make_frame cv img depth_map effect intensity (phase_of i n)"
  have "\<forall>i \<in> set [0..<nat n]. ?body i = Inr (frames ! i)" using r by simp
  from frames_loop_ok [OF this, of "[]"]
  have "generate_parallax_frames cv img depth_map n effect intensity
          = Inr (map ((!) frames) [0..<nat n])"
    by (simp add: generate_parallax_frames_def)
  moreover have "map ((!) frames) [0..<nat n] = frames"
    using r map_nth [of frames] by simp
  ultimately show ?L by simp
qed

lemma py_int_floor: "0 \<le> x \<Longrightarrow> py_int x = \<lfloor>x\<rfloor>"
  by (simp add: py_int_def)

section \<open>The scalar warp and frames that do not move\<close>

lemma rect_eqI:
  assumes "rect a h w" and "rect b h w" and "\<And>y x. y < h \<Longrightarrow> x < w \<Longrightarrow> a ! y ! x = b ! y ! x"
  shows "a = b"
proof (rule nth_equalityI)
  show "length a = length b" using assms(1,2) by (simp add: rect_def)
next
  fix y assume y: "y < length a"
  then have yh: "y < h" using assms(1) by (simp add: rect_def)
  show "a ! y = b ! y"
  proof (rule nth_equalityI)
    show "length (a ! y) = length (b ! y)"
      using rect_nth [OF assms(1) yh] rect_nth [OF assms(2) yh] by simp
  next
    fix x assume "x < length (a ! y)"
    then have "x < w" using rect_nth [OF assms(1) yh] by simp
    then show "a ! y ! x = b ! y ! x" using assms(3) yh by simp
  qed
qed

lemma cv2_resize_rect:
  assumes "concat src \<noteq> []" and "0 < h" and "0 < w"
  shows "\<exists>dst. cv2_resize cv src (int w, int h) = Inr dst \<and> rect dst h w
           \<and> (\<forall>y<h. \<forall>x<w. dst ! y ! x = resize_px cv src h w y x)"
  using assms by (simp add: cv2_resize_def rect_def list_all_length)

lemma cv2_resize_same:
  assumes "exact_on_grid cv" and "rect img h w" and "0 < h" and "0 < w"
  shows "cv2_resize cv img (int w, int h) = Inr img"
proof -
  obtain dst where dst: "cv2_resize cv img (int w, int h) = Inr dst" "rect dst h w"
    "\<forall>y<h. \<forall>x<w. dst ! y ! x = resize_px cv img h w y x"
    using cv2_resize_rect [OF rect_concat [OF assms(2-4)] assms(3,4)] by blast
  have hw: "height img = h" "width img = w"
    using assms(2,3) by (simp_all add: rect_height rect_width)
  have "dst ! y ! x = img ! y ! x" if yx: "y < h" "x < w" for y x
  proof -
    have "resize_px cv img h w y x = img ! y ! x"
      using assms(1,2) yx unfolding exact_on_grid_def by blast
    then show ?thesis using dst(3) yx by simp
  qed
  then have "dst = img" by (rule rect_eqI [OF dst(2) assms(2)])
  then show ?thesis using dst(1) by simp
qed

lemma pad_replicate_0: "pad_replicate 0 0 xs = xs"
  by (cases xs) (simp_all add: pad_replicate_def)

lemma cv2_copyMakeBorder_0: "cv2_copyMakeBorder src 0 0 0 0 = Inr src"
  by (simp add: cv2_copyMakeBorder_def pad_replicate_0 map_idI)

lemma apply_zoom_one:
  assumes "exact_on_grid cv" and "rect img h w" and "0 < h" and "0 < w"
  shows "apply_zoom cv img depth_map 1 = Inr img"
proof -
  have hw: "height img = h" "width img = w"
    using assms(2,3) by (simp_all add: rect_height rect_width)
  have r: "cv2_resize cv img (int w, int h) = Inr img"
    by (rule cv2_resize_same [OF assms])
  show ?thesis
    by (simp add: apply_zoom_def hw py_int_def r cv2_copyMakeBorder_0)
qed

lemma apply_parallax_zero:
  assumes "exact_on_grid cv" and "rect img h w" and "rect depth_map h w"
    and "0 < h" and "0 < w" and "\<forall>d \<in> set (concat depth_map). \<exists>r. d = Fin r"
  shows "apply_parallax cv img depth_map 0 0 = Inr img"
proof -
  obtain frame where fr: "apply_parallax cv img depth_map 0 0 = Inr frame" "rect frame h w"
    "\<forall>y<h. \<forall>x<w. frame ! y ! x
                 = remap_px cv img
                     (np_clip (np_add (real x) (np_mul (depth_map ! y ! x) 0)) 0 (real w - 1))
                     (np_clip (np_add (real y) (np_mul (depth_map ! y ! x) 0)) 0 (real h - 1))"
    using apply_parallax_rect [OF assms(2,3,4,5)] by blast
  have "frame ! y ! x = img ! y ! x" if yx: "y < h" "x < w" for y x
  proof -
    obtain r where r: "depth_map ! y ! x = Fin r"
      using rect_nth_mem [OF assms(3) yx] assms(6) by blast
    have cx: "min (max (real x) 0) (real w - 1) = real x" using yx by auto
    have cy: "min (max (real y) 0) (real h - 1) = real y" using yx by auto
    have "frame ! y ! x = remap_px cv img (Fin (real x)) (Fin (real y))"
      using fr(3) yx r cx cy by simp
    also have "\<dots> = img ! y ! x"
      using assms(1,2) yx unfolding exact_on_grid_def by blast
    finally show ?thesis .
  qed
  then have "frame = img" by (rule rect_eqI [OF fr(2) assms(2)])
  then show ?thesis using fr(1) by simp
qed

lemma make_frame_zero_intensity:
  assumes "exact_on_grid cv" and "rect img h w" and "rect depth_map h w"
    and "0 < h" and "0 < w" and "\<forall>d \<in> set (concat depth_map). \<exists>r. d = Fin r"
  shows "make_frame cv img depth_map effect 0 phase = Inr img"
  using apply_parallax_zero [OF assms] apply_zoom_one [OF assms(1,2,4,5)]
  by (simp add: make_frame_def parallax_offset_x_def parallax_offset_y_def
      zoom_factor_of_def sway_offset_x_def)

lemma generate_constant:
  assumes "\<And>phase. make_frame cv img depth_map effect intensity phase = Inr img"
  shows "generate_parallax_frames cv img depth_map n effect intensity = Inr (replicate (nat n) img)"
proof -
  have "\<forall>i \<in> set [0..<nat n].
          make_frame cv img depth_map effect intensity (phase_of i n) = Inr ((\<lambda>_. img) i)"
    using assms by simp
  from frames_loop_ok [OF this, of "[]"] show ?thesis
    by (simp add: generate_parallax_frames_def map_replicate_const)
qed

lemma exact_nearest_cv: "exact_on_grid nearest_cv"
proof -
  have "px_at src y x = src ! y ! x \<and> px_at src (y * height src div h) (x * width src div w) = src ! y ! x"
    if "rect src h w" "y < h" "x < w" for src h w y x
  proof -
    have "height src = h" "width src = w"
      using that by (simp_all add: rect_height rect_width)
    moreover have "y < length src" "x < length (src ! y)"
      using that by (auto simp: rect_def list_all_length)
    ultimately show ?thesis using that by (simp add: px_at_def)
  qed
  then show ?thesis
    by (auto simp add: exact_on_grid_def nearest_cv_def coord_index_def)
qed

section \<open>The crop and the padding of the scalar warp\<close>

lemma py_slice_take_drop:
  "0 \<le> lo \<Longrightarrow> lo \<le> hi \<Longrightarrow> hi \<le> int (length xs) \<Longrightarrow>
     py_slice xs lo hi = take (nat (hi - lo)) (drop (nat lo) xs)"
  by (simp add: py_slice_def Let_def)

lemma rect_crop:
  assumes "rect a h' w'" and "y0 + h \<le> h'" and "x0 + w \<le> w'"
  shows "rect (map (\<lambda>r. take w (drop x0 r)) (take h (drop y0 a))) h w"
  using assms by (auto simp: rect_def list_all_length)

lemma apply_zoom_in_rect:
  assumes "rect img h w" and "0 < h" and "0 < w" and "1 < z"
  shows "\<exists>frame. apply_zoom cv img depth_map z = Inr frame \<and> rect frame h w"
proof -
  have hw: "height img = h" "width img = w"
    using assms(1,2) by (simp_all add: rect_height rect_width)
  define nh where "nh = py_int (real_of_int (int h) * z)"
  define nw where "nw = py_int (real_of_int (int w) * z)"
  have grow: "real n \<le> real n * z" for n :: nat
    using mult_left_mono [of 1 z "real n"] assms(4) by simp
  have "int h \<le> \<lfloor>real h * z\<rfloor>" "int w \<le> \<lfloor>real w * z\<rfloor>"
    using grow [of h] grow [of w] by (simp_all add: le_floor_iff)
  moreover have "0 \<le> real h * z" "0 \<le> real w * z" using assms(4) by simp_all
  ultimately have ge: "int h \<le> nh" "int w \<le> nw"
    by (simp_all add: nh_def nw_def py_int_def)
  then have pos: "0 < nat nh" "0 < nat nw" using assms(2,3) by simp_all
  obtain zoomed where zm: "cv2_resize cv img (int (nat nw), int (nat nh)) = Inr zoomed"
    "rect zoomed (nat nh) (nat nw)"
    using cv2_resize_rect [OF rect_concat [OF assms(1-3)] pos] by blast
  have zm': "cv2_resize cv img (nw, nh) = Inr zoomed" using zm(1) ge by simp
  define y0 where "y0 = (nh - int h) div 2"
  define x0 where "x0 = (nw - int w) div 2"
  have y0: "0 \<le> y0" "y0 + int h \<le> nh" and x0: "0 \<le> x0" "x0 + int w \<le> nw"
    using ge by (simp_all add: y0_def x0_def)
  have rows: "py_slice zoomed y0 (y0 + int h) = take h (drop (nat y0) zoomed)"
    using py_slice_take_drop [of y0 "y0 + int h" zoomed] y0 zm(2) by (simp add: rect_def)
  have cols: "py_slice r x0 (x0 + int w) = take w (drop (nat x0) r)"
    if "r \<in> set (take h (drop (nat y0) zoomed))" for r
  proof -
    have "r \<in> set zoomed" using that by (meson in_set_dropD in_set_takeD)
    then have "length r = nat nw" using zm(2) by (simp add: rect_def list_all_iff)
    then show ?thesis using py_slice_take_drop [of x0 "x0 + int w" r] x0 by simp
  qed
  let ?frame = "map (\<lambda>r. take w (drop (nat x0) r)) (take h (drop (nat y0) zoomed))"
  have fold: "py_int (real h * z) = nh" "py_int (real w * z) = nw"
    "(nh - int h) div 2 = y0" "(nw - int w) div 2 = x0"
    by (simp_all add: nh_def nw_def y0_def x0_def)
  have "apply_zoom cv img depth_map z = Inr ?frame"
    using assms(4) rows cols
    by (simp add: apply_zoom_def hw fold zm' cong: map_cong)
  moreover have "rect ?frame h w"
    by (rule rect_crop [OF zm(2)]) (use y0 x0 in linarith)+
  ultimately show ?thesis by blast
qed

lemma apply_zoom_out_raises:
  assumes "rect img h w" and "0 < h" and "0 < w" and "z < 1"
  shows "apply_zoom cv img depth_map z = Inl CvError"
proof -
  have hw: "height img = h" "width img = w"
    using assms(1,2) by (simp_all add: rect_height rect_width)
  define nh where "nh = py_int (real_of_int (int h) * z)"
  define nw where "nw = py_int (real_of_int (int w) * z)"
  have less: "real h * z < real h" using assms(2,4) by simp
  have lt: "nh < int h"
  proof (cases "0 \<le> real h * z")
    case True
    then show ?thesis using less by (simp add: nh_def py_int_def floor_less_iff)
  next
    case False
    then have "real h * z \<le> 0" by simp
    then have "\<lceil>real h * z\<rceil> \<le> 0" by (simp only: ceiling_le_zero)
    moreover have "nh = \<lceil>real h * z\<rceil>" using False by (simp add: nh_def py_int_def)
    ultimately show ?thesis using assms(2) by linarith
  qed
  then have neg: "(nh - int h) div 2 < 0" by simp
  have fold: "py_int (real h * z) = nh" "py_int (real w * z) = nw"
    by (simp_all add: nh_def nw_def)
  show ?thesis
  proof (cases "cv2_resize cv img (nw, nh)")
    case (Inl e)
    then have "e = CvError" by (auto simp: cv2_resize_def split: if_splits)
    then show ?thesis using Inl by (simp add: apply_zoom_def hw fold)
  next
    case (Inr zoomed)
    then show ?thesis
      using neg assms(4) by (simp add: apply_zoom_def hw fold cv2_copyMakeBorder_def)
  qed
qed

section \<open>The claims about the warps\<close>



text \<open>
  Claim C4. The warp should return a frame of the size of the source for every motion
  parameter, also for a zoom factor of at most 1. The field warp does (lemma
  \<open>apply_parallax_rect\<close>), and so does the scalar warp for a factor above 1 (lemma
  \<open>apply_zoom_in_rect\<close>). For a factor below 1 the code computes the widths of the
  padding as \<open>(new - old) // 2\<close>, which is negative, and \<open>cv2.copyMakeBorder\<close>
  rejects them (lemma \<open>apply_zoom_out_raises\<close> for every factor below 1). The theorem
  runs the scalar warp on an image of 4 by 4 pixels with the factor 0.9, the factor of
  the zoom effect at intensity 1 and phase \<open>3\<pi>/2\<close>.
\<close>

theorem zoom_out_raises:
  "apply_zoom cv (replicate 4 (replicate 4 (255, 0, 0))) depth_map (9/10) = Inl CvError"
  by (simp add: apply_zoom_def height_def width_def py_int_def cv2_resize_def
      cv2_copyMakeBorder_def Let_def)


section \<open>The claims about the motion parameters\<close>

lemma motion_parameters_periodic:
  "parallax_offset_x (2 * pi) k = parallax_offset_x 0 k"
  "zoom_factor_of (2 * pi) k = zoom_factor_of 0 k"
  "sway_offset_x (2 * pi) k = sway_offset_x 0 k"
  by (simp_all add: parallax_offset_x_def zoom_factor_of_def sway_offset_x_def)

lemma parallax_offset_y_negates:
  "parallax_offset_y (2 * pi) k = - parallax_offset_y 0 k"
  by (simp add: parallax_offset_y_def)

text \<open>
  Claim C2. The motion parameters at phase 0 should equal those at phase \<open>2\<pi>\<close>
  for every effect, so that the loop closes. They do for \<open>offset_x\<close> of the parallax
  and the sway effect and for the zoom factor (lemma \<open>motion_parameters_periodic\<close>).
  The \<open>offset_y\<close> of the parallax effect is \<open>cos(phase * 0.5) * 10 * intensity\<close>,
  of period \<open>4\<pi>\<close>: it changes sign over one loop (lemma
  \<open>parallax_offset_y_negates\<close>). The theorem evaluates it at intensity 1, where the
  phase of frame 0 is 0.
\<close>

theorem parallax_offset_y_not_periodic:
  "phase_of 0 n = 0 \<and> parallax_offset_y 0 1 = 10 \<and> parallax_offset_y (2 * pi) 1 = - 10"
  by (simp add: parallax_offset_y_def phase_of_def)

text \<open>
  Claim C8. For every phase, intensity, source image and depth map, an effect that is
  none of \<open>'parallax'\<close>, \<open>'zoom'\<close> and \<open>'sway'\<close> gives a frame equal to the
  source image, and so is every frame of the sequence.
\<close>

theorem identity_effect:
  assumes "effect \<noteq> ''parallax''" and "effect \<noteq> ''zoom''" and "effect \<noteq> ''sway''"
  shows "make_frame cv img depth_map effect intensity phase = Inr img
       \<and> generate_parallax_frames cv img depth_map n effect intensity = Inr (replicate (nat n) img)"
proof -
  have "make_frame cv img depth_map effect intensity ph = Inr img" for ph
    using assms by (simp add: make_frame_def)
  then show ?thesis using generate_constant by blast
qed

theorem identity_effect_witness:
  "make_frame nearest_cv [[(255, 0, 0), (0, 0, 255)]] [[Fin 0, NaN]] ''identity'' 1 (pi / 2)
     = Inr [[(255, 0, 0), (0, 0, 255)]]
   \<and> generate_parallax_frames nearest_cv [[(255, 0, 0), (0, 0, 255)]] [[Fin 0, NaN]] 3
        ''identity'' 1
     = Inr (replicate 3 [[(255, 0, 0), (0, 0, 255)]])"
  using identity_effect [of "''identity''" nearest_cv "[[(255, 0, 0), (0, 0, 255)]]"
      "[[Fin 0, NaN]]" 1 "pi / 2" 3]
  by simp

text \<open>
  With intensity 0 the offsets of the field warp are 0 and the zoom factor is 1. On a
  depth map of the shape of the image with finite values, every effect at every phase
  then gives frames equal to the source image, when the interpolation is exact on the
  grid of the pixels (\<open>exact_on_grid\<close>): the field warp samples the source exactly at
  its pixels, and the scalar warp resizes the source to its own size.
\<close>

lemma zero_intensity_freezes_motion:
  assumes "exact_on_grid cv" and "rect img h w" and "rect depth_map h w"
    and "0 < h" and "0 < w" and "\<forall>d \<in> set (concat depth_map). \<exists>r. d = Fin r"
  shows "parallax_offset_x phase 0 = 0 \<and> parallax_offset_y phase 0 = 0
       \<and> sway_offset_x phase 0 = 0 \<and> zoom_factor_of phase 0 = 1
       \<and> make_frame cv img depth_map effect 0 phase = Inr img
       \<and> generate_parallax_frames cv img depth_map n effect 0 = Inr (replicate (nat n) img)"
proof -
  have "make_frame cv img depth_map effect 0 ph = Inr img" for ph
    by (rule make_frame_zero_intensity [OF assms])
  then show ?thesis
    using generate_constant [of cv img depth_map effect 0 n]
    by (simp add: parallax_offset_x_def parallax_offset_y_def sway_offset_x_def zoom_factor_of_def)
qed

lemma zero_intensity_freezes_motion_example:
  "exact_on_grid nearest_cv
   \<and> zoom_factor_of (pi / 3) 0 = 1
   \<and> make_frame nearest_cv [[(255, 0, 0), (0, 0, 255)], [(0, 255, 0), (9, 9, 9)]]
        [[Fin 0, Fin (1/2)], [Fin 1, Fin (1/4)]] ''zoom'' 0 (pi / 3)
       = Inr [[(255, 0, 0), (0, 0, 255)], [(0, 255, 0), (9, 9, 9)]]
   \<and> generate_parallax_frames nearest_cv [[(255, 0, 0), (0, 0, 255)], [(0, 255, 0), (9, 9, 9)]]
        [[Fin 0, Fin (1/2)], [Fin 1, Fin (1/4)]] 3 ''parallax'' 0
       = Inr (replicate 3 [[(255, 0, 0), (0, 0, 255)], [(0, 255, 0), (9, 9, 9)]])"
proof -
  let ?img = "[[(255, 0, 0), (0, 0, 255)], [(0, 255, 0), (9, 9, 9)]] :: image"
  let ?depth = "[[Fin 0, Fin (1/2)], [Fin 1, Fin (1/4)]]"
  have a: "rect ?img 2 2" "rect ?depth 2 2" by (simp_all add: rect_def)
  have b: "\<forall>d \<in> set (concat ?depth). \<exists>r. d = Fin r"
    by (auto simp del: fval.inject)
  have c: "(0::nat) < 2" by simp
  show ?thesis
    using zero_intensity_freezes_motion [OF exact_nearest_cv a c c b, of "pi / 3" "''zoom''" 3]
      zero_intensity_freezes_motion [OF exact_nearest_cv a c c b, of 0 "''parallax''" 3]
      exact_nearest_cv
    by simp
qed

text \<open>
  Claim C9. With intensity 0, every effect at every phase should give frames equal to
  the source image. The depth map that \<open>estimate_depth\<close> itself returns for a uniform
  raw field is all \<open>nan\<close> (the normalisation divides by zero there). The product of \<open>nan\<close>
  and the offset 0 is \<open>nan\<close>, \<open>np.clip\<close> keeps it, and the field warp samples every
  pixel of the frame at the coordinates \<open>(nan, nan)\<close>: all pixels of the frame are
  one and the same sample, whatever the interpolation does there, so the frame is not
  the source when the source has two colours. The theorem runs the pipeline with the
  parallax effect at intensity 0 for one second at 2 frames per second, on an image of
  a red and a blue pixel whose raw depth is uniform.
\<close>

theorem zero_intensity_on_uniform_depth:
  "estimate_depth (\<lambda>_. [[1/2, 1/2]]) [[(255, 0, 0), (0, 0, 255)]] = Inr [[NaN, NaN]]
   \<and> x_displaced [[(255, 0, 0), (0, 0, 255)]] [[NaN, NaN]] (parallax_offset_x phase 0)
       = Inr [[NaN, NaN]]
   \<and> make_frame cv [[(255, 0, 0), (0, 0, 255)]] [[NaN, NaN]] ''parallax'' 0 phase
       = Inr [[remap_px cv [[(255, 0, 0), (0, 0, 255)]] NaN NaN,
               remap_px cv [[(255, 0, 0), (0, 0, 255)]] NaN NaN]]
   \<and> make_frame cv [[(255, 0, 0), (0, 0, 255)]] [[NaN, NaN]] ''parallax'' 0 phase
       \<noteq> Inr [[(255, 0, 0), (0, 0, 255)]]
   \<and> generate Fin
        \<lparr>hub_load = Some (\<lambda>_. [[1/2, 1/2]]),
         read_image = (\<lambda>_. Some [[(255, 0, 0), (0, 0, 255)]]),
         writer_opened = True\<rparr>
        cv ''poster.jpg'' ''parallax'' (Fin 1) 2 0
       = ([MakeDirs, LoadModel, LoadImage, EstimateDepth, SaveDepthVisualization,
           GenerateFrames, EncodeVideo],
          Inr [[[remap_px cv [[(255, 0, 0), (0, 0, 255)]] NaN NaN,
                 remap_px cv [[(255, 0, 0), (0, 0, 255)]] NaN NaN]],
               [[remap_px cv [[(255, 0, 0), (0, 0, 255)]] NaN NaN,
                 remap_px cv [[(255, 0, 0), (0, 0, 255)]] NaN NaN]]])"
proof -
  let ?img = "[[(255, 0, 0), (0, 0, 255)]] :: image"
  let ?p = "remap_px cv ?img NaN NaN"
  have depth: "estimate_depth (\<lambda>_. [[1/2, 1/2]]) ?img = Inr [[NaN, NaN]]"
    by (simp add: estimate_depth_def normalize_def arr_min_def arr_max_def np_div_def)
  have up: "[0..<2] = [0, Suc 0]"
    by (simp add: upt_rec)
  have xd: "x_displaced ?img [[NaN, NaN]] 0 = Inr [[NaN, NaN]]"
    by (simp add: x_displaced_def displaced_def np_binop_def meshgrid_x_def height_def
        width_def astype_float32_def up)
  have yd: "y_displaced ?img [[NaN, NaN]] 0 = Inr [[NaN, NaN]]"
    by (simp add: y_displaced_def displaced_def np_binop_def meshgrid_y_def height_def
        width_def astype_float32_def)
  have frame: "make_frame cv ?img [[NaN, NaN]] ''parallax'' 0 ph = Inr [[?p, ?p]]" for ph
    by (simp add: make_frame_def parallax_offset_x_def parallax_offset_y_def apply_parallax_def
        xd yd cv2_remap_def astype_float32_def)
  have differ: "Inr [[?p, ?p]] \<noteq> (Inr ?img :: error + image)"
    by auto
  have n: "num_frames_of Fin (Fin 1) 2 = Inr 2"
    by (simp add: num_frames_of_def py_float_def py_int_def)
  have loop: "generate_parallax_frames cv ?img [[NaN, NaN]] 2 ''parallax'' 0
                = Inr [[[?p, ?p]], [[?p, ?p]]]"
    by (simp add: generate_parallax_frames_def up frame)
  have run: "generate Fin
        \<lparr>hub_load = Some (\<lambda>_. [[1/2, 1/2]]),
         read_image = (\<lambda>_. Some ?img), writer_opened = True\<rparr>
        cv ''poster.jpg'' ''parallax'' (Fin 1) 2 0
       = ([MakeDirs, LoadModel, LoadImage, EstimateDepth, SaveDepthVisualization,
           GenerateFrames, EncodeVideo], Inr [[[?p, ?p]], [[?p, ?p]]])"
    by (simp add: generate_def load_model_def load_image_def depth n loop encode_video_def)
  show ?thesis
    using depth xd frame [of phase] differ run
    by (simp add: parallax_offset_x_def)
qed

section \<open>The claims about the schedule\<close>

lemma num_frames_of_finite:
  "fl (real_of_int fps) = Fin f \<Longrightarrow> fl (d * f) = Fin p \<Longrightarrow>
     num_frames_of fl (Fin d) fps = Inr (py_int p)"
  by (simp add: num_frames_of_def py_float_def)

lemma num_frames_of_follows_rounding:
  "fl 10 = Fin 10 \<Longrightarrow> fl (5404319552844595 / 9007199254740992 * 10) = Fin 6 \<Longrightarrow>
     num_frames_of fl (Fin (5404319552844595 / 9007199254740992)) 10 = Inr 6
     \<and> \<lfloor>5404319552844595 / 9007199254740992 * 10 :: real\<rfloor> = 5"
  by (simp add: num_frames_of_def py_float_def py_int_def)

lemma num_frames_of_not_finite:
  "fl (real_of_int fps) = Fin f \<Longrightarrow> f \<noteq> 0 \<Longrightarrow>
     num_frames_of fl PInf fps = Inl OverflowError
     \<and> num_frames_of fl NInf fps = Inl OverflowError
     \<and> num_frames_of fl NaN fps = Inl ValueError"
  by (simp add: num_frames_of_def py_float_def)

lemma generate_raises_at_the_count:
  assumes "num_frames_of fl duration fps = Inl err"
    and "hub_load e = Some predict" and "read_image e input_path = Some img"
    and "concat (predict img) \<noteq> []"
  shows "generate fl e cv input_path effect duration fps intensity
     = ([MakeDirs, LoadModel, LoadImage, EstimateDepth, SaveDepthVisualization], Inl err)"
  using assms
  by (simp add: generate_def load_model_def load_image_def estimate_depth_def normalize_def)

text \<open>
  Claim C3, as amended. The number of frames is \<open>N = int(duration * fps)\<close>: the
  product of the two as doubles, rounded to a double, and truncated toward zero, not
  rounded to the nearest integer (and \<open>int\<close> raises when the product is not finite,
  lemma \<open>num_frames_of_not_finite\<close>). The frame loop returns a sequence exactly when
  the warp of every index below \<open>N\<close> returns, and then the sequence has exactly
  \<open>N\<close> frames, in the order of the indices, frame \<open>i\<close> computed at the phase
  \<open>(i / N) * 2\<pi>\<close>. A duration of 4.0 and 24 frames per second give 96 frames (in
  the witness, with a run of 4 frames of the sway effect that differ with the phase).
\<close>

theorem frame_count_and_order:
  assumes "fl (real_of_int fps) = Fin f" and "fl (d * f) = Fin p"
  shows "num_frames_of fl (Fin d) fps = Inr (py_int p)
       \<and> (generate_parallax_frames cv img depth_map (py_int p) effect intensity = Inr frames
          \<longleftrightarrow> length frames = nat (py_int p)
            \<and> (\<forall>i < nat (py_int p).
                  make_frame cv img depth_map effect intensity
                    (real i / real_of_int (py_int p) * 2 * pi)
                  = Inr (frames ! i)))"
  using num_frames_of_finite [OF assms]
    generate_parallax_frames_iff [of cv img depth_map "py_int p" effect intensity frames]
  by (simp add: phase_of_def)

theorem frame_count_and_order_witness:
  "num_frames_of Fin (Fin 4) 24 = Inr 96
   \<and> num_frames_of Fin (Fin 1) 4 = Inr 4
   \<and> generate_parallax_frames nearest_cv [[(255, 0, 0), (0, 0, 255)]] [[Fin 1, Fin 1]] 4
        ''sway'' 1
       = Inr [[[(255, 0, 0), (0, 0, 255)]], [[(0, 0, 255), (0, 0, 255)]],
              [[(255, 0, 0), (0, 0, 255)]], [[(255, 0, 0), (255, 0, 0)]]]"
proof -
  let ?img = "[[(255, 0, 0), (0, 0, 255)]] :: image"
  let ?depth = "[[Fin 1, Fin 1]]"
  let ?frames = "[[[(255, 0, 0), (0, 0, 255)]], [[(0, 0, 255), (0, 0, 255)]],
                  [[(255, 0, 0), (0, 0, 255)]], [[(255, 0, 0), (255, 0, 0)]]] :: image list"
  have up: "[0..<2] = [0, Suc 0]"
    by (simp add: upt_rec)
  have sway: "make_frame nearest_cv ?img ?depth ''sway'' 1 ph
      = Inr [[px_at ?img 0 (nat \<lfloor>min (max (sin ph * 15) 0) 1\<rfloor>),
              px_at ?img 0 (nat \<lfloor>min (max (1 + sin ph * 15) 0) 1\<rfloor>)]]" for ph
    by (simp add: make_frame_def sway_offset_x_def apply_parallax_def x_displaced_def
        y_displaced_def displaced_def np_binop_def meshgrid_x_def meshgrid_y_def height_def
        width_def astype_float32_def up cv2_remap_def nearest_cv_def coord_index_def)
  have ph: "real 0 / real_of_int 4 * 2 * pi = 0" "real 1 / real_of_int 4 * 2 * pi = pi / 2"
    "real 2 / real_of_int 4 * 2 * pi = pi" "real 3 / real_of_int 4 * 2 * pi = 3 / 2 * pi"
    by simp_all
  have f0: "make_frame nearest_cv ?img ?depth ''sway'' 1 (real 0 / real_of_int 4 * 2 * pi)
              = Inr (?frames ! 0)"
    unfolding ph sway by (simp add: px_at_def)
  have f1: "make_frame nearest_cv ?img ?depth ''sway'' 1 (real 1 / real_of_int 4 * 2 * pi)
              = Inr (?frames ! 1)"
    unfolding ph sway by (simp add: px_at_def)
  have f2: "make_frame nearest_cv ?img ?depth ''sway'' 1 (real 2 / real_of_int 4 * 2 * pi)
              = Inr (?frames ! 2)"
    unfolding ph sway by (simp add: px_at_def)
  have f3: "make_frame nearest_cv ?img ?depth ''sway'' 1 (real 3 / real_of_int 4 * 2 * pi)
              = Inr (?frames ! 3)"
  proof -
    have "sin (3 * pi / 2) = - 1" using sin_3over2_pi by simp
    then show ?thesis unfolding ph sway by (simp add: px_at_def)
  qed
  have all: "\<forall>i < nat 4. make_frame nearest_cv ?img ?depth ''sway'' 1
               (real i / real_of_int 4 * 2 * pi) = Inr (?frames ! i)"
  proof (intro allI impI)
    fix i :: nat assume "i < nat 4"
    then have "i = 0 \<or> i = 1 \<or> i = 2 \<or> i = 3" by auto
    then show "make_frame nearest_cv ?img ?depth ''sway'' 1
                 (real i / real_of_int 4 * 2 * pi) = Inr (?frames ! i)"
      using f0 f1 f2 f3 by blast
  qed
  have a: "Fin (real_of_int 24) = Fin 24" "Fin (4 * 24) = Fin 96"
    and b: "Fin (real_of_int 4) = Fin 4" "Fin (1 * 4) = Fin 4" by simp_all
  have n96: "py_int 96 = 96" and n4: "py_int 4 = 4" by (simp_all add: py_int_def)
  show ?thesis
    using frame_count_and_order [of Fin 24 24 4 96, OF a]
      frame_count_and_order [of Fin 4 4 1 4 nearest_cv ?img ?depth "''sway''" 1 ?frames, OF b]
      all
    by (simp add: n96 n4)
qed

text \<open>
  The count of claim C3 as the spec states it, \<open>round(duration * fps)\<close>, is not the
  count of the code: a duration of 0.25 at 7 frames per second gives the product 1.75,
  a double, which the code truncates to 1 frame and rounding takes to 2.
\<close>

theorem frame_count_rounds_counterexample:
  "num_frames_of Fin (Fin (1/4)) 7 = Inr 1 \<and> round (1/4 * real_of_int 7) = (2::int)"
  by (simp add: num_frames_of_def py_float_def py_int_def round_def)




section \<open>The frame loop on the store\<close>

lemma returns_prefix: "returns s val (res, s') \<Longrightarrow> prefix s s'"
  by (simp add: returns_def)

lemma returns_weaken:
  assumes "prefix s0 s" and "returns s val out"
  shows "returns s0 val out"
proof -
  obtain res s' where out: "out = (res, s')" by (cases out)
  have p: "prefix s s'" using assms(2) out by (simp add: returns_def)
  have "prefix s0 s'" using assms(1) p by (rule prefix_order.trans)
  moreover have "length s0 \<le> length s" using assms(1) by (rule prefix_length_le)
  ultimately show ?thesis
    using assms(2) out by (auto simp: returns_def split: sum.splits)
qed

lemma pixels_prefix: "prefix s s' \<Longrightarrow> base r < length s \<Longrightarrow> pixels s' r = pixels s r"
  by (auto simp: pixels_def prefix_def nth_append)

lemma floats_prefix: "prefix s s' \<Longrightarrow> base r < length s \<Longrightarrow> floats s' r = floats s r"
  by (auto simp: floats_def prefix_def nth_append)

lemma coords_prefix: "prefix s s' \<Longrightarrow> base r < length s \<Longrightarrow> coords s' r = coords s r"
  by (auto simp: coords_def prefix_def nth_append)

lemma alloc_prefix: "alloc b s = (r, s') \<Longrightarrow> prefix s s' \<and> base r < length s'"
  by (auto simp: alloc_def)

lemma alloc_coords: "alloc (Coords c) s = (r, s') \<Longrightarrow> coords s' r = c"
  by (auto simp: alloc_def coords_def window_def)

lemma clip_st_spec:
  "clip_st a b s = (r, s') \<Longrightarrow>
     prefix s s' \<and> base r < length s'
     \<and> floats s' r = map (map (\<lambda>v. np_clip v 0 b)) (floats s a)"
  by (auto simp: clip_st_def alloc_def floats_def window_def)

lemma astype_st_spec:
  "astype_st a s = (r, s') \<Longrightarrow>
     prefix s s' \<and> base r < length s' \<and> floats s' r = astype_float32 (floats s a)"
  by (auto simp: astype_st_def alloc_def floats_def window_def)

lemma alloc_floats: "alloc (Floats f) s = (r, s') \<Longrightarrow> floats s' r = f"
  by (auto simp: alloc_def floats_def window_def)

lemma alloc_pixels: "alloc (Pixels p) s = (r, s') \<Longrightarrow> pixels s' r = p"
  by (auto simp: alloc_def pixels_def window_def)

lemma alloc_fresh: "alloc b s = (r, s') \<Longrightarrow> length s \<le> base r"
  by (auto simp: alloc_def)

lemma displaced_sum_st_spec:
  assumes run: "displaced_sum_st cs depth_map k s = (res, s')"
    and cs: "base cs < length s"
  shows "prefix s s' \<and>
         (case res of
            Inl e \<Rightarrow> np_binop np_add (coords s cs)
                      (astype_float32 (map (map (\<lambda>d. np_mul d k)) (floats s depth_map))) = Inl e
          | Inr r \<Rightarrow> base r < length s'
              \<and> np_binop np_add (coords s cs)
                  (astype_float32 (map (map (\<lambda>d. np_mul d k)) (floats s depth_map)))
                = Inr (floats s' r))"
proof -
  let ?p = "map (map (\<lambda>d. np_mul d k)) (floats s depth_map)"
  obtain p s1 where a1: "alloc (Floats ?p) s = (p, s1)" by fastforce
  obtain c s2 where a2: "alloc (Floats (astype_float32 (floats s1 p))) s1 = (c, s2)"
    by fastforce
  have p1: "prefix s s1" and p2: "prefix s1 s2"
    using alloc_prefix [OF a1] alloc_prefix [OF a2] by simp_all
  have p02: "prefix s s2" using p1 p2 by (rule prefix_order.trans)
  have "floats s2 c = astype_float32 ?p"
    using alloc_floats [OF a2] alloc_floats [OF a1] by simp
  moreover have "coords s2 cs = coords s cs" using p02 cs by (rule coords_prefix)
  ultimately have op: "np_binop np_add (coords s2 cs) (floats s2 c)
      = np_binop np_add (coords s cs) (astype_float32 ?p)" by simp
  show ?thesis
  proof (cases "np_binop np_add (coords s cs) (astype_float32 ?p)")
    case (Inl e)
    have "displaced_sum_st cs depth_map k s = (Inl e, s2)"
      unfolding displaced_sum_st_def Let_def
      by (simp only: a1 a2 op Inl prod.case sum.case)
    then show ?thesis using run p02 Inl by simp
  next
    case (Inr moved)
    obtain r s3 where a3: "alloc (Floats moved) s2 = (r, s3)" by fastforce
    have "displaced_sum_st cs depth_map k s = (Inr r, s3)"
      unfolding displaced_sum_st_def Let_def
      by (simp only: a1 a2 a3 op Inr prod.case sum.case)
    moreover have "prefix s s3"
      using p02 alloc_prefix [OF a3] by (meson prefix_order.trans)
    ultimately show ?thesis
      using run Inr alloc_prefix [OF a3] alloc_floats [OF a3] by auto
  qed
qed

lemma returns_remap:
  "returns s (cv2_remap cv (pixels s src) (floats s mx) (floats s my)) (remap_st cv src mx my s)"
  by (auto simp: returns_def remap_st_def alloc_def Let_def pixels_def window_def
      split: sum.splits)

lemma returns_resize:
  "returns s (cv2_resize cv (pixels s src) dsize) (resize_st cv src dsize s)"
  by (auto simp: returns_def resize_st_def alloc_def Let_def pixels_def window_def
      split: sum.splits)

lemma resize_st_whole: "resize_st cv src dsize s = (Inr r, s') \<Longrightarrow> r = Whole (base r)"
  by (auto simp: resize_st_def alloc_def Let_def split: sum.splits)

lemma returns_copyMakeBorder:
  "returns s (cv2_copyMakeBorder (pixels s src) t b l r) (copyMakeBorder_st src t b l r s)"
  by (auto simp: returns_def copyMakeBorder_st_def alloc_def Let_def pixels_def window_def
      split: sum.splits)


lemma returns_apply_parallax:
  assumes img: "base img < length s" and dm: "base depth_map < length s"
  shows "returns s (apply_parallax cv (pixels s img) (floats s depth_map) ox oy)
           (apply_parallax_st cv img depth_map ox oy s)"
proof -
  define h where "h = height (pixels s img)"
  define w where "w = width (pixels s img)"
  let ?D = "floats s depth_map"
  let ?sumx = "np_binop np_add (meshgrid_x h w) (astype_float32 (map (map (\<lambda>d. np_mul d ox)) ?D))"
  let ?sumy = "np_binop np_add (meshgrid_y h w) (astype_float32 (map (map (\<lambda>d. np_mul d oy)) ?D))"
  obtain yc s1 where a1: "alloc (Coords (meshgrid_y h w)) s = (yc, s1)" by fastforce
  obtain xc s2 where a2: "alloc (Coords (meshgrid_x h w)) s1 = (xc, s2)" by fastforce
  obtain rx s3 where x: "displaced_sum_st xc depth_map ox s2 = (rx, s3)" by fastforce
  have p1: "prefix s s1" and yc1: "base yc < length s1" using alloc_prefix [OF a1] by simp_all
  have p12: "prefix s1 s2" and xc2: "base xc < length s2" using alloc_prefix [OF a2] by simp_all
  have p2: "prefix s s2" using p1 p12 by (rule prefix_order.trans)
  have yc2: "base yc < length s2" using yc1 prefix_length_le [OF p12] by simp
  have cx: "coords s2 xc = meshgrid_x h w" by (rule alloc_coords [OF a2])
  have cy: "coords s2 yc = meshgrid_y h w"
    using coords_prefix [OF p12 yc1] alloc_coords [OF a1] by simp
  have d2: "floats s2 depth_map = ?D" using p2 dm by (rule floats_prefix)
  have sx: "prefix s2 s3 \<and> (case rx of Inl e \<Rightarrow> ?sumx = Inl e
              | Inr r \<Rightarrow> base r < length s3 \<and> ?sumx = Inr (floats s3 r))"
    using displaced_sum_st_spec [OF x xc2] unfolding cx d2 .
  then have p23: "prefix s2 s3" by simp
  have p3: "prefix s s3" using p2 p23 by (rule prefix_order.trans)
  have pure_x: "x_displaced (pixels s img) ?D ox
      = (case ?sumx of Inl e \<Rightarrow> Inl e
         | Inr moved \<Rightarrow> Inr (map (map (\<lambda>v. np_clip v 0 (real_of_int (int w - 1)))) moved))"
    unfolding x_displaced_def displaced_def h_def w_def by (rule refl)
  have pure_y: "y_displaced (pixels s img) ?D oy
      = (case ?sumy of Inl e \<Rightarrow> Inl e
         | Inr moved \<Rightarrow> Inr (map (map (\<lambda>v. np_clip v 0 (real_of_int (int h - 1)))) moved))"
    unfolding y_displaced_def displaced_def h_def w_def by (rule refl)
  show ?thesis
  proof (cases rx)
    case (Inl e)
    have "apply_parallax_st cv img depth_map ox oy s = (Inl e, s3)"
      unfolding apply_parallax_st_def Let_def h_def [symmetric] w_def [symmetric]
      by (simp only: a1 a2 x Inl prod.case sum.case)
    moreover have "apply_parallax cv (pixels s img) ?D ox oy = Inl e"
      using sx Inl by (simp add: apply_parallax_def pure_x)
    ultimately show ?thesis using p3 by (simp add: returns_def)
  next
    case rxr: (Inr xs)
    have xs3: "base xs < length s3" and vx: "?sumx = Inr (floats s3 xs)"
      using sx rxr by simp_all
    obtain ry s4 where y: "displaced_sum_st yc depth_map oy s3 = (ry, s4)" by fastforce
    have yc3: "base yc < length s3" using yc2 prefix_length_le [OF p23] by simp
    have cy3: "coords s3 yc = meshgrid_y h w" using coords_prefix [OF p23 yc2] cy by simp
    have d3: "floats s3 depth_map = ?D" using p3 dm by (rule floats_prefix)
    have sy: "prefix s3 s4 \<and> (case ry of Inl e \<Rightarrow> ?sumy = Inl e
              | Inr r \<Rightarrow> base r < length s4 \<and> ?sumy = Inr (floats s4 r))"
      using displaced_sum_st_spec [OF y yc3] unfolding cy3 d3 .
    then have p34: "prefix s3 s4" by simp
    have p4: "prefix s s4" using p3 p34 by (rule prefix_order.trans)
    show ?thesis
    proof (cases ry)
      case (Inl e)
      have "apply_parallax_st cv img depth_map ox oy s = (Inl e, s4)"
        unfolding apply_parallax_st_def Let_def h_def [symmetric] w_def [symmetric]
        by (simp only: a1 a2 x y rxr Inl prod.case sum.case)
      moreover have "apply_parallax cv (pixels s img) ?D ox oy = Inl e"
        using sy Inl vx by (simp add: apply_parallax_def pure_x pure_y)
      ultimately show ?thesis using p4 by (simp add: returns_def)
    next
      case ryr: (Inr ys)
      have ys4: "base ys < length s4" and vy: "?sumy = Inr (floats s4 ys)"
        using sy ryr by simp_all
      have xs4: "floats s4 xs = floats s3 xs" using p34 xs3 by (rule floats_prefix)
      obtain xcl s5 where c5: "clip_st xs (real_of_int (int w - 1)) s4 = (xcl, s5)" by fastforce
      obtain ycl s6 where c6: "clip_st ys (real_of_int (int h - 1)) s5 = (ycl, s6)" by fastforce
      obtain xm s7 where c7: "astype_st xcl s6 = (xm, s7)" by fastforce
      obtain ym s8 where c8: "astype_st ycl s7 = (ym, s8)" by fastforce
      note k5 = clip_st_spec [OF c5] and k6 = clip_st_spec [OF c6]
        and k7 = astype_st_spec [OF c7] and k8 = astype_st_spec [OF c8]
      have p45: "prefix s4 s5" and p56: "prefix s5 s6" and p67: "prefix s6 s7"
        and p78: "prefix s7 s8"
        using k5 k6 k7 k8 by simp_all
      have p8: "prefix s s8"
        using p4 p45 p56 p67 p78 by (meson prefix_order.trans)
      have fx: "floats s8 xm
                  = astype_float32 (map (map (\<lambda>v. np_clip v 0 (real_of_int (int w - 1))))
                      (floats s3 xs))"
      proof -
        have "floats s8 xm = floats s7 xm" using p78 k7 by (simp add: floats_prefix)
        also have "\<dots> = astype_float32 (floats s6 xcl)" using k7 by simp
        also have "floats s6 xcl = floats s5 xcl" using p56 k5 by (simp add: floats_prefix)
        also have "floats s5 xcl
            = map (map (\<lambda>v. np_clip v 0 (real_of_int (int w - 1)))) (floats s4 xs)"
          using k5 by simp
        finally show ?thesis by (simp add: xs4)
      qed
      have fy: "floats s8 ym
                  = astype_float32 (map (map (\<lambda>v. np_clip v 0 (real_of_int (int h - 1))))
                      (floats s4 ys))"
      proof -
        have "floats s8 ym = astype_float32 (floats s7 ycl)" using k8 by simp
        also have "floats s7 ycl = floats s6 ycl" using p67 k6 by (simp add: floats_prefix)
        also have "floats s6 ycl
            = map (map (\<lambda>v. np_clip v 0 (real_of_int (int h - 1)))) (floats s5 ys)"
          using k6 by simp
        also have "floats s5 ys = floats s4 ys" using p45 ys4 by (rule floats_prefix)
        finally show ?thesis .
      qed
      have px: "pixels s8 img = pixels s img" using p8 img by (rule pixels_prefix)
      have eq: "apply_parallax_st cv img depth_map ox oy s = remap_st cv img xm ym s8"
        unfolding apply_parallax_st_def Let_def h_def [symmetric] w_def [symmetric]
        by (simp only: a1 a2 x y rxr ryr c5 c6 c7 c8 prod.case sum.case)
      have val: "apply_parallax cv (pixels s img) ?D ox oy
                  = cv2_remap cv (pixels s8 img) (floats s8 xm) (floats s8 ym)"
        using vx vy by (simp add: apply_parallax_def pure_x pure_y fx fy px)
      show ?thesis unfolding eq val by (rule returns_weaken [OF p8 returns_remap])
    qed
  qed
qed


lemma pixels_view:
  "pixels s (View a y0 y1 x0 x1)
     = map (\<lambda>row. py_slice row x0 x1) (py_slice (pixels s (Whole a)) y0 y1)"
  by (simp add: pixels_def window_def py_slice_def split: buffer.splits)

lemma returns_apply_zoom:
  assumes img: "base img < length s"
  shows "returns s (apply_zoom cv (pixels s img) depth z) (apply_zoom_st cv img depth_map z s)"
proof -
  define h where "h = int (height (pixels s img))"
  define w where "w = int (width (pixels s img))"
  define nh where "nh = py_int (real_of_int h * z)"
  define nw where "nw = py_int (real_of_int w * z)"
  define y0 where "y0 = (nh - h) div 2"
  define x0 where "x0 = (nw - w) div 2"
  obtain rz s1 where r1: "resize_st cv img (nw, nh) s = (rz, s1)" by fastforce
  have k1: "returns s (cv2_resize cv (pixels s img) (nw, nh)) (rz, s1)"
    unfolding r1 [symmetric] by (rule returns_resize)
  have p1: "prefix s s1" by (rule returns_prefix [OF k1])
  have pure: "apply_zoom cv (pixels s img) depth z
      = (case cv2_resize cv (pixels s img) (nw, nh) of
           Inl e \<Rightarrow> Inl e
         | Inr zoomed \<Rightarrow>
             if z > 1.0
             then Inr (map (\<lambda>r. py_slice r x0 (x0 + w)) (py_slice zoomed y0 (y0 + h)))
             else (case cv2_copyMakeBorder zoomed y0 y0 x0 x0 of
                     Inl e \<Rightarrow> Inl e
                   | Inr frame \<Rightarrow> cv2_resize cv frame (w, h)))"
    unfolding apply_zoom_def Let_def h_def w_def nh_def nw_def y0_def x0_def by (rule refl)
  show ?thesis
  proof (cases rz)
    case (Inl e)
    have "apply_zoom_st cv img depth_map z s = (Inl e, s1)"
      unfolding apply_zoom_st_def Let_def h_def [symmetric] w_def [symmetric]
        nh_def [symmetric] nw_def [symmetric]
      by (simp only: r1 Inl prod.case sum.case)
    moreover have "apply_zoom cv (pixels s img) depth z = Inl e"
      using k1 Inl by (simp add: pure returns_def)
    ultimately show ?thesis using p1 by (simp add: returns_def)
  next
    case rzr: (Inr zoomed)
    have zv: "cv2_resize cv (pixels s img) (nw, nh) = Inr (pixels s1 zoomed)"
      and zf: "length s \<le> base zoomed" "base zoomed < length s1"
      using k1 rzr by (simp_all add: returns_def)
    have zw: "zoomed = Whole (base zoomed)"
      using r1 rzr resize_st_whole by blast
    show ?thesis
    proof (cases "z > 1.0")
      case True
      have "apply_zoom_st cv img depth_map z s
              = (Inr (View (base zoomed) y0 (y0 + h) x0 (x0 + w)), s1)"
        unfolding apply_zoom_st_def Let_def h_def [symmetric] w_def [symmetric]
          nh_def [symmetric] nw_def [symmetric] y0_def [symmetric] x0_def [symmetric]
        by (simp only: r1 rzr True prod.case sum.case if_True)
      moreover have "apply_zoom cv (pixels s img) depth z
              = Inr (pixels s1 (View (base zoomed) y0 (y0 + h) x0 (x0 + w)))"
        using True zw by (simp add: pure zv pixels_view)
      ultimately show ?thesis using p1 zf by (simp add: returns_def)
    next
      case False
      obtain rb s2 where b: "copyMakeBorder_st zoomed y0 y0 x0 x0 s1 = (rb, s2)" by fastforce
      have k2: "returns s1 (cv2_copyMakeBorder (pixels s1 zoomed) y0 y0 x0 x0) (rb, s2)"
        unfolding b [symmetric] by (rule returns_copyMakeBorder)
      have p2: "prefix s s2" using p1 returns_prefix [OF k2] by (rule prefix_order.trans)
      show ?thesis
      proof (cases rb)
        case (Inl e)
        have "apply_zoom_st cv img depth_map z s = (Inl e, s2)"
          unfolding apply_zoom_st_def Let_def h_def [symmetric] w_def [symmetric]
            nh_def [symmetric] nw_def [symmetric] y0_def [symmetric] x0_def [symmetric]
          by (simp only: r1 rzr False b Inl prod.case sum.case if_False)
        moreover have "apply_zoom cv (pixels s img) depth z = Inl e"
          using k2 Inl False by (simp add: pure zv returns_def)
        ultimately show ?thesis using p2 by (simp add: returns_def)
      next
        case (Inr frame)
        have eq: "apply_zoom_st cv img depth_map z s = resize_st cv frame (w, h) s2"
          unfolding apply_zoom_st_def Let_def h_def [symmetric] w_def [symmetric]
            nh_def [symmetric] nw_def [symmetric] y0_def [symmetric] x0_def [symmetric]
          by (simp only: r1 rzr False b Inr prod.case sum.case if_False)
        have val: "apply_zoom cv (pixels s img) depth z = cv2_resize cv (pixels s2 frame) (w, h)"
          using k2 Inr False by (simp add: pure zv returns_def)
        show ?thesis unfolding eq val by (rule returns_weaken [OF p2 returns_resize])
      qed
    qed
  qed
qed

lemma returns_make_frame:
  assumes img: "base img < length s" and dm: "base depth_map < length s"
  shows "returns s (make_frame cv (pixels s img) (floats s depth_map) effect intensity phase)
           (make_frame_st cv img depth_map effect intensity phase s)"
proof -
  have "returns s (Inr (pixels s img)) (Inr (Whole (length s)), s @ [Pixels (pixels s img)])"
    by (simp add: returns_def pixels_def window_def)
  then show ?thesis
    using returns_apply_parallax [OF img dm] returns_apply_zoom [OF img]
    by (simp add: make_frame_st_def make_frame_def alloc_def)
qed

lemma frames_loop_st_spec:
  assumes body: "\<And>i t. prefix s0 t \<Longrightarrow> returns t (val i) (body i t)"
    and run: "frames_loop_st body idx acc s = (res, s')"
    and s: "prefix s0 s"
    and acc: "\<forall>f \<in> set acc. length s0 \<le> base f \<and> base f < length s"
    and dist: "distinct (map base acc)"
  shows "prefix s s' \<and>
         (case res of
            Inl e \<Rightarrow> frames_loop val idx (map (pixels s) acc) = Inl e
          | Inr frames \<Rightarrow>
              (\<forall>f \<in> set frames. length s0 \<le> base f \<and> base f < length s')
              \<and> distinct (map base frames)
              \<and> frames_loop val idx (map (pixels s) acc) = Inr (map (pixels s') frames))"
  using run s acc dist
proof (induction idx arbitrary: acc s)
  case Nil
  then show ?case by auto
next
  case (Cons i rest)
  obtain r s1 where b: "body i s = (r, s1)" by fastforce
  have k: "returns s (val i) (r, s1)" using body [OF Cons.prems(2), of i] b by simp
  have p1: "prefix s s1" by (rule returns_prefix [OF k])
  show ?case
  proof (cases r)
    case (Inl e)
    then show ?thesis using Cons.prems(1) b k p1 by (auto simp: returns_def)
  next
    case (Inr frame)
    have fr: "length s \<le> base frame" "base frame < length s1" "val i = Inr (pixels s1 frame)"
      using k Inr by (simp_all add: returns_def)
    have run': "frames_loop_st body rest (acc @ [frame]) s1 = (res, s')"
      using Cons.prems(1) b Inr by simp
    have s01: "prefix s0 s1" using Cons.prems(2) p1 by (rule prefix_order.trans)
    have le: "length s0 \<le> length s" "length s \<le> length s1"
      using Cons.prems(2) p1 by (simp_all add: prefix_length_le)
    have acc': "\<forall>f \<in> set (acc @ [frame]). length s0 \<le> base f \<and> base f < length s1"
      using Cons.prems(3) fr le by auto
    have dist': "distinct (map base (acc @ [frame]))"
      using Cons.prems(3,4) fr by auto
    have same: "map (pixels s1) acc = map (pixels s) acc"
      using Cons.prems(3) p1 by (auto simp: pixels_prefix)
    have step: "frames_loop val (i # rest) (map (pixels s) acc)
                  = frames_loop val rest (map (pixels s1) (acc @ [frame]))"
      by (simp only: frames_loop.simps fr(3) sum.case map_append list.map same)
    have ih: "prefix s1 s' \<and>
         (case res of
            Inl e \<Rightarrow> frames_loop val rest (map (pixels s1) (acc @ [frame])) = Inl e
          | Inr frames \<Rightarrow>
              (\<forall>f \<in> set frames. length s0 \<le> base f \<and> base f < length s')
              \<and> distinct (map base frames)
              \<and> frames_loop val rest (map (pixels s1) (acc @ [frame]))
                  = Inr (map (pixels s') frames))"
      by (rule Cons.IH [OF run' s01 acc' dist'])
    have "prefix s s'" using p1 ih by (meson prefix_order.trans)
    then show ?thesis using ih unfolding step by simp
  qed
qed

text \<open>
  Claim C10. Frame generation does not modify the source image or the depth field:
  when \<open>generate_parallax_frames\<close> returns or raises, for every effect, number of
  frames and intensity, every buffer of the store at the call is unchanged (the store
  at the call is a prefix of the store after it), so the source image and the depth map
  hold the values they had; every frame lies in a buffer allocated by the call, no
  two frames share a buffer, and the frames hold the values that the function on
  values computes.
\<close>

theorem frames_leave_inputs_unchanged:
  assumes run: "generate_parallax_frames_st cv img depth_map n effect intensity s = (res, s')"
    and img: "base img < length s" and dm: "base depth_map < length s"
  shows "prefix s s'
       \<and> pixels s' img = pixels s img \<and> floats s' depth_map = floats s depth_map
       \<and> (case res of
            Inl e \<Rightarrow>
              generate_parallax_frames cv (pixels s img) (floats s depth_map) n effect intensity
                = Inl e
          | Inr frames \<Rightarrow>
              (\<forall>f \<in> set frames. length s \<le> base f \<and> base f < length s')
              \<and> distinct (map base frames)
              \<and> generate_parallax_frames cv (pixels s img) (floats s depth_map) n effect intensity
                  = Inr (map (pixels s') frames))"
proof -
  let ?val = "\<lambda>i. make_frame cv (pixels s img) (floats s depth_map) effect intensity
                     (phase_of i n)"
  let ?body = "\<lambda>i. make_frame_st cv img depth_map effect intensity (phase_of i n)"
  have body: "returns t (?val i) (?body i t)" if t: "prefix s t" for i t
  proof -
    have lt: "base img < length t" "base depth_map < length t"
      using img dm prefix_length_le [OF t] by simp_all
    have "pixels t img = pixels s img" "floats t depth_map = floats s depth_map"
      using t img dm by (simp_all add: pixels_prefix floats_prefix)
    then show ?thesis using returns_make_frame [OF lt, of cv effect intensity "phase_of i n"]
      by simp
  qed
  have run': "frames_loop_st ?body [0..<nat n] [] s = (res, s')"
    using run by (simp add: generate_parallax_frames_st_def)
  have spec: "prefix s s' \<and>
         (case res of
            Inl e \<Rightarrow> frames_loop ?val [0..<nat n] (map (pixels s) []) = Inl e
          | Inr frames \<Rightarrow>
              (\<forall>f \<in> set frames. length s \<le> base f \<and> base f < length s')
              \<and> distinct (map base frames)
              \<and> frames_loop ?val [0..<nat n] (map (pixels s) []) = Inr (map (pixels s') frames))"
    by (rule frames_loop_st_spec [OF body run']) simp_all
  then have p: "prefix s s'" by simp
  have "pixels s' img = pixels s img" "floats s' depth_map = floats s depth_map"
    using p img dm by (simp_all add: pixels_prefix floats_prefix)
  then show ?thesis
    using spec by (cases res) (simp_all add: generate_parallax_frames_def)
qed

theorem frames_leave_inputs_unchanged_witness:
  "prefix [Pixels [[(255, 0, 0), (0, 0, 255)]], Floats [[Fin 0, Fin 1]]]
     (snd (generate_parallax_frames_st nearest_cv (Whole 0) (Whole 1) 2 ''sway'' 1
        [Pixels [[(255, 0, 0), (0, 0, 255)]], Floats [[Fin 0, Fin 1]]]))
   \<and> pixels (snd (generate_parallax_frames_st nearest_cv (Whole 0) (Whole 1) 2 ''sway'' 1
        [Pixels [[(255, 0, 0), (0, 0, 255)]], Floats [[Fin 0, Fin 1]]])) (Whole 0)
      = [[(255, 0, 0), (0, 0, 255)]]
   \<and> floats (snd (generate_parallax_frames_st nearest_cv (Whole 0) (Whole 1) 2 ''sway'' 1
        [Pixels [[(255, 0, 0), (0, 0, 255)]], Floats [[Fin 0, Fin 1]]])) (Whole 1)
      = [[Fin 0, Fin 1]]"
proof -
  let ?s = "[Pixels [[(255, 0, 0), (0, 0, 255)]], Floats [[Fin 0, Fin 1]]]"
  let ?R = "generate_parallax_frames_st nearest_cv (Whole 0) (Whole 1) 2 ''sway'' 1 ?s"
  have a: "?R = (fst ?R, snd ?R)" by simp
  have b: "base (Whole 0) < length ?s" "base (Whole 1) < length ?s" by simp_all
  have "pixels ?s (Whole 0) = [[(255, 0, 0), (0, 0, 255)]]" "floats ?s (Whole 1) = [[Fin 0, Fin 1]]"
    by (simp_all add: pixels_def floats_def window_def)
  then show ?thesis
    using frames_leave_inputs_unchanged [OF a b] by simp
qed

end
